theory Spec2Isabelle
  imports
    Complex_Main
    "HOL-Library.Char_ord"
    "HOL-Library.List_Lexorder"
    "HOL-Library.Multiset"
begin

section \<open>Python values\<close>

text \<open>
  The documents the control plane handles (runbook steps, policies, run context, adapter
  arguments, audit payloads) are JSON-like Python values. A \<open>dict\<close> is an association
  list in insertion order with string keys; a well-formed one has no repeated key.
  A \<open>str\<close> is a list of characters, each read as a code point below 256. A \<open>float\<close>
  is carried as the rational it denotes; what Python's \<open>float()\<close>, \<open>str()\<close> and
  \<open>repr\<close> do with floating-point numbers, and the two digest functions
  (\<open>hashlib.sha256(data).hexdigest()\<close> and \<open>hmac.new(key, data, sha256).hexdigest()\<close>),
  are not code of this repository: they are the fields of \<open>py_lib\<close>, next to the audit
  secret the process reads from its environment, and every definition that uses one of
  them takes the library as its first argument.
\<close>

datatype pyval =
    PNone
  | PBool bool
  | PInt int
  | PFloat rat
  | PStr string
  | PList "pyval list"
  | PDict "(string \<times> pyval) list"

record py_lib =
  float_repr :: "rat \<Rightarrow> string"
  float_of_str :: "string \<Rightarrow> rat option"
  str_of :: "pyval \<Rightarrow> string"
  sha256_hex :: "string \<Rightarrow> string"
  hmac_sha256_hex :: "string \<Rightarrow> string \<Rightarrow> string"
  AUDIT_HMAC_SECRET :: string

text \<open>\<open>d.get(k)\<close>: the value stored under \<open>k\<close>, or \<open>None\<close>.\<close>

definition dict_get :: "(string \<times> pyval) list \<Rightarrow> string \<Rightarrow> pyval" where
  "dict_get d k = (case map_of d k of None \<Rightarrow> PNone | Some v \<Rightarrow> v)"

text \<open>\<open>d[k] = v\<close>: the value of an existing key is replaced in place, a new key goes to
  the end.\<close>

fun dict_set :: "(string \<times> pyval) list \<Rightarrow> string \<Rightarrow> pyval \<Rightarrow> (string \<times> pyval) list" where
  "dict_set [] k v = [(k, v)]"
| "dict_set ((k', v') # d) k v = (if k' = k then (k, v) # d else (k', v') # dict_set d k v)"

text \<open>\<open>d.get(k, default)\<close> for a key that holds a string when it is present.\<close>

definition dict_get_str :: "(string \<times> pyval) list \<Rightarrow> string \<Rightarrow> string \<Rightarrow> string" where
  "dict_get_str d k dflt = (case map_of d k of Some (PStr s) \<Rightarrow> s | _ \<Rightarrow> dflt)"

text \<open>Truthiness, \<open>bool(v)\<close>.\<close>

fun py_truthy :: "pyval \<Rightarrow> bool" where
  "py_truthy PNone = False"
| "py_truthy (PBool b) = b"
| "py_truthy (PInt i) = (i \<noteq> 0)"
| "py_truthy (PFloat r) = (r \<noteq> 0)"
| "py_truthy (PStr s) = (s \<noteq> [])"
| "py_truthy (PList xs) = (xs \<noteq> [])"
| "py_truthy (PDict kvs) = (kvs \<noteq> [])"

text \<open>Equality \<open>a == b\<close>: booleans, integers and floats compare by numeric value,
  lists element by element, dictionaries key by key.\<close>

fun num_val :: "pyval \<Rightarrow> rat option" where
  "num_val (PBool b) = Some (if b then 1 else 0)"
| "num_val (PInt i) = Some (of_int i)"
| "num_val (PFloat r) = Some r"
| "num_val v = None"

fun py_eq :: "pyval \<Rightarrow> pyval \<Rightarrow> bool" where
  "py_eq PNone b = (b = PNone)"
| "py_eq (PBool x) b = (num_val b = Some (if x then 1 else 0))"
| "py_eq (PInt i) b = (num_val b = Some (of_int i))"
| "py_eq (PFloat r) b = (num_val b = Some r)"
| "py_eq (PStr s) b = (b = PStr s)"
| "py_eq (PList xs) (PList ys) = list_all2 py_eq xs ys"
| "py_eq (PList xs) b = False"
| "py_eq (PDict kvs) (PDict kws) =
     (length kvs = length kws
      \<and> list_all (\<lambda>(k, v). case map_of kws k of None \<Rightarrow> False | Some w \<Rightarrow> py_eq v w) kvs)"
| "py_eq (PDict kvs) b = False"

text \<open>Membership in a list, \<open>x in xs\<close>.\<close>

definition py_in_list :: "pyval \<Rightarrow> pyval list \<Rightarrow> bool" where
  "py_in_list x xs = list_ex (\<lambda>y. py_eq y x) xs"

text \<open>Substring test, \<open>s in t\<close> on strings.\<close>

fun is_prefix :: "string \<Rightarrow> string \<Rightarrow> bool" where
  "is_prefix [] t = True"
| "is_prefix (c # s) [] = False"
| "is_prefix (c # s) (d # t) = (c = d \<and> is_prefix s t)"

fun is_substring :: "string \<Rightarrow> string \<Rightarrow> bool" where
  "is_substring s [] = (s = [])"
| "is_substring s (d # t) = (is_prefix s (d # t) \<or> is_substring s t)"

text \<open>\<open>s.split(c)\<close> for a one-character separator: the pieces between the
  occurrences of \<open>c\<close>, one more than there are occurrences.\<close>

fun split_on :: "char \<Rightarrow> string \<Rightarrow> string list" where
  "split_on c [] = [[]]"
| "split_on c (x # xs) =
    (if x = c then [] # split_on c xs
     else (case split_on c xs of
             [] \<Rightarrow> [[x]]
           | p # ps \<Rightarrow> (x # p) # ps))"

subsection \<open>Decimal and hexadecimal digits\<close>

definition digit_char :: "nat \<Rightarrow> char" where
  "digit_char d = ''0123456789abcdef'' ! d"

function nat_decimal :: "nat \<Rightarrow> string" where
  "nat_decimal n = (if n < 10 then [digit_char n]
                    else nat_decimal (n div 10) @ [digit_char (n mod 10)])"
  by pat_completeness auto
termination
  by (relation "measure id") auto

text \<open>\<open>str(i)\<close> for an integer.\<close>

definition int_decimal :: "int \<Rightarrow> string" where
  "int_decimal i = (if i < 0 then CHR ''-'' # nat_decimal (nat (- i)) else nat_decimal (nat i))"

subsection \<open>\<open>json.dumps\<close> with \<open>sort_keys=True\<close>\<close>

text \<open>
  The encoder with \<open>ensure_ascii\<close> left at its default: inside a string, the quote and
  the backslash are escaped, the five short escapes are used, and every other character
  outside the printable ASCII range becomes \<open>\u00XX\<close>.
\<close>

definition json_escape_char :: "char \<Rightarrow> string" where
  "json_escape_char c =
    (if c = CHR 0x22 then [CHR 0x5C, CHR 0x22]
     else if c = CHR 0x5C then [CHR 0x5C, CHR 0x5C]
     else if c = CHR 0x0A then [CHR 0x5C, CHR ''n'']
     else if c = CHR 0x0D then [CHR 0x5C, CHR ''r'']
     else if c = CHR 0x09 then [CHR 0x5C, CHR ''t'']
     else if c = CHR 0x08 then [CHR 0x5C, CHR ''b'']
     else if c = CHR 0x0C then [CHR 0x5C, CHR ''f'']
     else if (of_char c :: nat) < 32 \<or> 126 < (of_char c :: nat)
       then [CHR 0x5C, CHR ''u'', CHR ''0'', CHR ''0'',
             digit_char (of_char c div 16), digit_char (of_char c mod 16)]
     else [c])"

definition json_string :: "string \<Rightarrow> string" where
  "json_string s = [CHR 0x22] @ concat (map json_escape_char s) @ [CHR 0x22]"

text \<open>\<open>sep.join(xs)\<close>.\<close>

fun join :: "string \<Rightarrow> string list \<Rightarrow> string" where
  "join sep [] = []"
| "join sep [x] = x"
| "join sep (x # y # ys) = x @ sep @ join sep (y # ys)"

text \<open>
  \<open>json_dumps lib item_sep key_sep v\<close> is \<open>json.dumps(v, sort_keys=True,
  separators=(item_sep, key_sep))\<close>. The items of a dictionary are written in the order
  of their keys; strings are ordered as Python orders them, by code point. The values
  are rendered first and the rendered items sorted by key, which is the same list as
  rendering the items sorted by key.
\<close>

fun json_dumps :: "py_lib \<Rightarrow> string \<Rightarrow> string \<Rightarrow> pyval \<Rightarrow> string" where
  "json_dumps lib isep ksep PNone = ''null''"
| "json_dumps lib isep ksep (PBool b) = (if b then ''true'' else ''false'')"
| "json_dumps lib isep ksep (PInt i) = int_decimal i"
| "json_dumps lib isep ksep (PFloat r) = float_repr lib r"
| "json_dumps lib isep ksep (PStr s) = json_string s"
| "json_dumps lib isep ksep (PList xs) =
     ''['' @ join isep (map (json_dumps lib isep ksep) xs) @ '']''"
| "json_dumps lib isep ksep (PDict kvs) =
     ''{'' @ join isep
        (map (\<lambda>(k, s). json_string k @ ksep @ s)
           (sort_key fst (map (\<lambda>(k, v). (k, json_dumps lib isep ksep v)) kvs)))
      @ ''}''"


text \<open>A text between double quotes, for writing out JSON texts.\<close>

definition quoted :: "string \<Rightarrow> string" where
  "quoted s = CHR 0x22 # s @ [CHR 0x22]"

section \<open>Authorization (gateway/app/rbac.py)\<close>

text \<open>
  The permission matrix \<open>PERMISSIONS\<close> is a dictionary from role names to dictionaries
  from \<open>(action, resource)\<close> pairs to booleans. Both levels are kept as association
  lists in the order of the source; \<open>map_of\<close> is the dictionary lookup.
\<close>

type_synonym perm_table = "((string \<times> string) \<times> bool) list"

definition PERMISSIONS :: "(string \<times> perm_table) list" where
  "PERMISSIONS =
    [(''Admin'',
       [((''*'', ''*''), True),
        ((''write'', ''project''), True),
        ((''write'', ''role_binding''), True),
        ((''read'', ''project''), True),
        ((''read'', ''role_binding''), True)]),
     (''SRE'',
       [((''write'', ''runbook''), True),
        ((''write'', ''policy''), True),
        ((''read'', ''runbook''), True),
        ((''read'', ''policy''), True),
        ((''read'', ''run''), True),
        ((''execute'', ''run''), True),
        ((''approve'', ''approval''), False),
        ((''read'', ''project''), True)]),
     (''OnCall'',
       [((''read'', ''*''), True),
        ((''approve'', ''approval''), True)]),
     (''Viewer'',
       [((''read'', ''*''), True)])]"

text \<open>\<open>_check_permission\<close>: Admin first, then exact match, wildcard action, wildcard
  resource, both wildcards, and \<open>False\<close> when nothing is listed.\<close>

definition check_permission :: "string \<Rightarrow> string \<Rightarrow> string \<Rightarrow> bool" where
  "check_permission role action resource =
    (if role = ''Admin'' then True
     else
       let role_perms = (case map_of PERMISSIONS role of None \<Rightarrow> [] | Some t \<Rightarrow> t) in
       (case map_of role_perms (action, resource) of
          Some b \<Rightarrow> b
        | None \<Rightarrow>
       (case map_of role_perms (''*'', resource) of
          Some b \<Rightarrow> b
        | None \<Rightarrow>
       (case map_of role_perms (action, ''*'') of
          Some b \<Rightarrow> b
        | None \<Rightarrow>
       (case map_of role_perms (''*'', ''*'') of
          Some b \<Rightarrow> b
        | None \<Rightarrow> False)))))"

text \<open>The attributes of \<open>request.state\<close> read by \<open>_get_subject_identifiers\<close>; an
  attribute that is absent is \<open>None\<close>.\<close>

record request_state =
  user_email :: "string option"
  user_groups :: "string list option"
  authn :: "string option"
  api_key_id :: "string option"

definition get_subject_identifiers :: "request_state \<Rightarrow> (string \<times> string) list" where
  "get_subject_identifiers st =
    (case user_email st of
       Some e \<Rightarrow> (if e \<noteq> [] then [(''user'', e)] else [])
     | None \<Rightarrow> [])
    @ (case user_groups st of
         Some gs \<Rightarrow> map (\<lambda>g. (''group'', g)) gs
       | None \<Rightarrow> [])
    @ (if authn st = Some ''apikey''
       then (case api_key_id st of
               Some k \<Rightarrow> (if k \<noteq> [] then [(''apikey'', k)] else [])
             | None \<Rightarrow> [])
       else [])"

record role_binding =
  rb_tenant_id :: string
  rb_project_id :: "string option"
  rb_subject_type :: string
  rb_subject_id :: string
  rb_role :: string

datatype http_error =
    Unauthorized401
  | Forbidden403
  | NotFound404
  | BadRequest400

text \<open>The two queries of \<open>authorize\<close>: bindings of a subject at one project, and its
  tenant-level bindings (\<open>project_id IS NULL\<close>), in the order the table returns them.\<close>

definition project_bindings ::
  "role_binding list \<Rightarrow> string \<Rightarrow> string \<Rightarrow> string \<times> string \<Rightarrow> role_binding list" where
  "project_bindings db tenant_id project_id subj =
    filter (\<lambda>b. rb_tenant_id b = tenant_id \<and> rb_project_id b = Some project_id
               \<and> rb_subject_type b = fst subj \<and> rb_subject_id b = snd subj) db"

definition tenant_bindings ::
  "role_binding list \<Rightarrow> string \<Rightarrow> string \<times> string \<Rightarrow> role_binding list" where
  "tenant_bindings db tenant_id subj =
    filter (\<lambda>b. rb_tenant_id b = tenant_id \<and> rb_project_id b = None
               \<and> rb_subject_type b = fst subj \<and> rb_subject_id b = snd subj) db"

text \<open>The inner loop \<open>for binding in bindings\<close>: the state is \<open>(allowed, roles_checked)\<close>;
  a role already seen is not checked again, and the loop stops (\<open>break\<close>) at the first
  role that grants.\<close>

fun check_bindings ::
  "string \<Rightarrow> string \<Rightarrow> role_binding list \<Rightarrow> bool \<times> string set \<Rightarrow> bool \<times> string set" where
  "check_bindings action resource [] st = st"
| "check_bindings action resource (b # bs) (allowed, roles_checked) =
    (if rb_role b \<notin> roles_checked then
       (if check_permission (rb_role b) action resource
        then (True, insert (rb_role b) roles_checked)
        else check_bindings action resource bs (allowed, insert (rb_role b) roles_checked))
     else check_bindings action resource bs (allowed, roles_checked))"

text \<open>The outer loop \<open>for subject_type, subject_id in subjects\<close>: project-level bindings
  first when a project is selected, tenant-level bindings when nothing has granted yet,
  and \<open>break\<close> once allowed.\<close>

fun check_subjects ::
  "role_binding list \<Rightarrow> string \<Rightarrow> string option \<Rightarrow> string \<Rightarrow> string \<Rightarrow>
   (string \<times> string) list \<Rightarrow> bool \<times> string set \<Rightarrow> bool \<times> string set" where
  "check_subjects db tenant_id project_id action resource [] st = st"
| "check_subjects db tenant_id project_id action resource (subj # rest) st =
    (let st1 = (case project_id of
                  Some p \<Rightarrow> (if p \<noteq> []
                             then check_bindings action resource
                                    (project_bindings db tenant_id p subj) st
                             else st)
                | None \<Rightarrow> st);
         st2 = (if \<not> fst st1
                then check_bindings action resource (tenant_bindings db tenant_id subj) st1
                else st1)
     in if fst st2 then st2
        else check_subjects db tenant_id project_id action resource rest st2)"

text \<open>\<open>authorize(action, resource)\<close> applied to a request whose tenant and project have
  been resolved: \<open>Inl\<close> is the raised \<open>HTTPException\<close>, \<open>Inr ()\<close> is the normal return.\<close>

definition authorize ::
  "string \<Rightarrow> string \<Rightarrow> role_binding list \<Rightarrow> string \<Rightarrow> string option \<Rightarrow> request_state
   \<Rightarrow> http_error + unit" where
  "authorize action resource db tenant_id project_id st =
    (let subjects = get_subject_identifiers st in
     if subjects = [] then Inl Unauthorized401
     else
       let (allowed0, roles_checked) =
             check_subjects db tenant_id project_id action resource subjects (False, {});
           allowed =
             (if action = ''approve'' \<and> resource = ''approval''
                 \<and> ''SRE'' \<in> roles_checked \<and> ''OnCall'' \<in> roles_checked
              then True else allowed0)
       in if \<not> allowed then Inl Forbidden403 else Inr ())"

text \<open>The roles a list of subject identifiers holds for a request: the roles of every
  binding the two queries can return for one of them. \<open>bound_roles\<close> is that set for
  the identifiers of the request.\<close>

definition subj_roles ::
  "role_binding list \<Rightarrow> string \<Rightarrow> string option \<Rightarrow> (string \<times> string) list \<Rightarrow> string set" where
  "subj_roles db tenant_id project_id subs =
    set (map rb_role (filter (\<lambda>b.
       rb_tenant_id b = tenant_id
       \<and> (rb_subject_type b, rb_subject_id b) \<in> set subs
       \<and> (rb_project_id b = None
          \<or> (case project_id of
                None \<Rightarrow> False
              | Some p \<Rightarrow> p \<noteq> [] \<and> rb_project_id b = Some p))) db))"

definition bound_roles ::
  "role_binding list \<Rightarrow> string \<Rightarrow> string option \<Rightarrow> request_state \<Rightarrow> string set" where
  "bound_roles db tenant_id project_id st =
    subj_roles db tenant_id project_id (get_subject_identifiers st)"

text \<open>A tenant with a single binding: one user holding only \<open>SRE\<close>.\<close>

definition sre_only_db :: "role_binding list" where
  "sre_only_db =
    [\<lparr>rb_tenant_id = ''t1'', rb_project_id = None, rb_subject_type = ''user'',
      rb_subject_id = ''sre@example.com'', rb_role = ''SRE''\<rparr>]"

definition sre_request :: request_state where
  "sre_request = \<lparr>user_email = Some ''sre@example.com'', user_groups = None,
                   authn = None, api_key_id = None\<rparr>"

section \<open>Step records (gateway/app/models.py, orchestrator/app/activities.py)\<close>

datatype StepStatus = PENDING | RUNNING | SUCCEEDED | FAILED | SKIPPED | COMPENSATED

text \<open>The enum constructor \<open>StepStatus(value)\<close> on a string: \<open>None\<close> is the
  \<open>ValueError\<close> it raises for a string that names no member.\<close>

definition StepStatus_of :: "string \<Rightarrow> StepStatus option" where
  "StepStatus_of v =
    (if v = ''pending'' then Some PENDING
     else if v = ''running'' then Some RUNNING
     else if v = ''succeeded'' then Some SUCCEEDED
     else if v = ''failed'' then Some FAILED
     else if v = ''skipped'' then Some SKIPPED
     else if v = ''compensated'' then Some COMPENSATED
     else None)"


text \<open>A row of the \<open>steps\<close> table. A nullable JSON column holds \<open>PNone\<close> when it is
  null; timestamps are points on an integer clock.\<close>

record step_row =
  s_run_id :: string
  s_name :: string
  s_tool :: string
  s_status :: StepStatus
  s_input :: pyval
  s_output :: pyval
  s_error :: pyval
  s_idempotency_key :: "string option"
  s_started_at :: "int option"
  s_ended_at :: "int option"

text \<open>
  The value stored under \<open>"status"\<close> in the \<open>fields\<close> dictionary: a member of the
  enum, or a string (what the workflow passes).
\<close>

datatype status_arg = StatusEnum StepStatus | StatusStr string

text \<open>
  The \<open>fields\<close> dictionary of \<open>record_step\<close>, restricted to the keys the engine passes;
  each field is \<open>None\<close> when the key is absent. The keys are distinct attributes of the
  row, so the order in which the loop assigns them does not matter.
\<close>

record step_fields =
  f_status :: "status_arg option"
  f_tool :: "string option"
  f_input :: "pyval option"
  f_output :: "pyval option"
  f_error :: "pyval option"
  f_idempotency_key :: "string option"
  f_started_at :: "int option"
  f_ended_at :: "int option"

definition no_fields :: step_fields where
  "no_fields = \<lparr>f_status = None, f_tool = None, f_input = None, f_output = None,
                 f_error = None, f_idempotency_key = None, f_started_at = None,
                 f_ended_at = None\<rparr>"

text \<open>The branch \<open>key == "status"\<close> of the loop: an enum member is stored as it is, a
  string goes through the enum constructor, and a value the constructor rejects stores
  \<open>PENDING\<close> (the \<open>except\<close> branch).\<close>

definition status_of_arg :: "status_arg \<Rightarrow> StepStatus" where
  "status_of_arg a =
    (case a of
       StatusEnum s \<Rightarrow> s
     | StatusStr v \<Rightarrow> (case StepStatus_of v of Some s \<Rightarrow> s | None \<Rightarrow> PENDING))"

text \<open>\<open>fields.get("status") == m\<close> for a member \<open>m\<close>: the enum derives from \<open>str\<close>, so
  a string equals the member whose value it is.\<close>

definition status_arg_is :: "status_arg option \<Rightarrow> StepStatus \<Rightarrow> bool" where
  "status_arg_is a m =
    (case a of
       None \<Rightarrow> False
     | Some (StatusEnum s) \<Rightarrow> s = m
     | Some (StatusStr v) \<Rightarrow> StepStatus_of v = Some m)"

text \<open>The body of \<open>record_step\<close> once the row is at hand: the loop over the items of
  \<open>fields\<close>, then the two timestamp defaults. \<open>now\<close> is \<open>datetime.utcnow()\<close>.\<close>

definition apply_fields :: "int \<Rightarrow> step_fields \<Rightarrow> step_row \<Rightarrow> step_row" where
  "apply_fields now flds step =
    (let s1 = step\<lparr>
           s_status := (case f_status flds of None \<Rightarrow> s_status step
                      | Some a \<Rightarrow> status_of_arg a),
           s_tool := (case f_tool flds of None \<Rightarrow> s_tool step | Some v \<Rightarrow> v),
           s_input := (case f_input flds of None \<Rightarrow> s_input step | Some v \<Rightarrow> v),
           s_output := (case f_output flds of None \<Rightarrow> s_output step | Some v \<Rightarrow> v),
           s_error := (case f_error flds of None \<Rightarrow> s_error step | Some v \<Rightarrow> v),
           s_idempotency_key := (case f_idempotency_key flds of
                                 None \<Rightarrow> s_idempotency_key step | Some v \<Rightarrow> Some v),
           s_started_at := (case f_started_at flds of
                            None \<Rightarrow> s_started_at step | Some v \<Rightarrow> Some v),
           s_ended_at := (case f_ended_at flds of
                          None \<Rightarrow> s_ended_at step | Some v \<Rightarrow> Some v)\<rparr>;
         s2 = (if status_arg_is (f_status flds) RUNNING
               then s1\<lparr>s_started_at :=
                         (case s_started_at s1 of None \<Rightarrow> Some now | Some t \<Rightarrow> Some t)\<rparr>
               else s1);
         s3 = (if status_arg_is (f_status flds) SUCCEEDED
                  \<or> status_arg_is (f_status flds) FAILED
                  \<or> status_arg_is (f_status flds) SKIPPED
                  \<or> status_arg_is (f_status flds) COMPENSATED
               then s2\<lparr>s_ended_at :=
                         (case s_ended_at s2 of None \<Rightarrow> Some now | Some t \<Rightarrow> Some t)\<rparr>
               else s2)
     in s3)"

text \<open>A row as \<open>models.Step(run_id=..., name=..., tool=...)\<close> creates it, with the column
  default \<open>PENDING\<close>.\<close>

definition new_step :: "string \<Rightarrow> string \<Rightarrow> string \<Rightarrow> step_row" where
  "new_step rid nm tool_name =
    \<lparr>s_run_id = rid, s_name = nm, s_tool = tool_name, s_status = PENDING, s_input = PNone, s_output = PNone,
     s_error = PNone, s_idempotency_key = None, s_started_at = None, s_ended_at = None\<rparr>"

text \<open>\<open>record_step\<close> on the table of steps: the first row of the run with that name is
  updated in place; when there is none, a new row is added.\<close>

fun update_first :: "('a \<Rightarrow> bool) \<Rightarrow> ('a \<Rightarrow> 'a) \<Rightarrow> 'a list \<Rightarrow> 'a list option" where
  "update_first P f [] = None"
| "update_first P f (x # xs) =
    (if P x then Some (f x # xs)
     else (case update_first P f xs of None \<Rightarrow> None | Some ys \<Rightarrow> Some (x # ys)))"

definition record_step ::
  "int \<Rightarrow> step_row list \<Rightarrow> string \<Rightarrow> string \<Rightarrow> step_fields \<Rightarrow> step_row list" where
  "record_step now db rid step_name flds =
    (case update_first (\<lambda>s. s_run_id s = rid \<and> s_name s = step_name)
            (apply_fields now flds) db of
       Some db' \<Rightarrow> db'
     | None \<Rightarrow>
         db @ [apply_fields now flds
                 (new_step rid step_name
                    (case f_tool flds of None \<Rightarrow> '''' | Some t \<Rightarrow> t))])"





section \<open>Audit log (gateway/app/security.py, gateway/app/audit.py, gateway/app/routers/audit.py)\<close>

text \<open>
  A row of \<open>audit_logs\<close>. The table is kept as the list of its rows in the order of
  their timestamps \<open>ts\<close>, oldest first: \<open>order_by(ts.asc())\<close> is the list itself and
  \<open>order_by(ts.desc()).limit(1)\<close> is its last element. A new row is stamped by the
  database at insertion and goes to the end.
\<close>

record audit_log =
  a_id :: string
  a_actor_type :: string
  a_actor_id :: string
  a_tenant_id :: "string option"
  a_action :: string
  a_resource_type :: string
  a_resource_id :: "string option"
  a_payload :: pyval
  a_prev_hash :: "string option"
  a_hash :: string

definition opt_str :: "string option \<Rightarrow> pyval" where
  "opt_str s = (case s of None \<Rightarrow> PNone | Some t \<Rightarrow> PStr t)"

text \<open>The dictionary \<open>record\<close> that both \<open>write_audit\<close> and \<open>verify_audit_chain\<close> build
  from the seven hashed columns.\<close>

definition audit_record ::
  "string \<Rightarrow> string \<Rightarrow> string option \<Rightarrow> string \<Rightarrow> string \<Rightarrow> string option \<Rightarrow> pyval \<Rightarrow> pyval" where
  "audit_record actor_type actor_id tenant_id action resource_type resource_id payload =
    PDict [(''actor_type'', PStr actor_type),
           (''actor_id'', PStr actor_id),
           (''tenant_id'', opt_str tenant_id),
           (''action'', PStr action),
           (''resource_type'', PStr resource_type),
           (''resource_id'', opt_str resource_id),
           (''payload'', payload)]"

definition record_of :: "audit_log \<Rightarrow> pyval" where
  "record_of l = audit_record (a_actor_type l) (a_actor_id l) (a_tenant_id l) (a_action l)
                   (a_resource_type l) (a_resource_id l) (a_payload l)"

text \<open>Truthiness of an optional string: \<open>None\<close> and the empty string are false.\<close>

definition truthy_str :: "string option \<Rightarrow> bool" where
  "truthy_str s = (case s of None \<Rightarrow> False | Some t \<Rightarrow> t \<noteq> [])"

text \<open>\<open>hmac_hash(prev_hash, record)\<close>: the previous hash, when there is one, is put in
  front of the canonical JSON of the record, and the result is keyed with the audit
  secret.\<close>

definition hmac_hash :: "py_lib \<Rightarrow> string option \<Rightarrow> pyval \<Rightarrow> string" where
  "hmac_hash lib prev_hash record =
    (let data = (if truthy_str prev_hash
                 then the prev_hash @ json_dumps lib '','' '':'' record
                 else json_dumps lib '','' '':'' record)
     in hmac_sha256_hex lib (AUDIT_HMAC_SECRET lib) data)"

text \<open>The rows of one tenant, oldest first.\<close>

definition tenant_logs :: "string \<Rightarrow> audit_log list \<Rightarrow> audit_log list" where
  "tenant_logs t db = filter (\<lambda>l. a_tenant_id l = Some t) db"

text \<open>The arguments of one call of \<open>write_audit\<close>, with the primary key the new row
  gets (a fresh UUID in the source).\<close>

record audit_write =
  w_id :: string
  w_actor_type :: string
  w_actor_id :: string
  w_tenant_id :: "string option"
  w_action :: string
  w_resource_type :: string
  w_resource_id :: "string option"
  w_payload :: pyval

definition write_audit :: "py_lib \<Rightarrow> audit_write \<Rightarrow> audit_log list \<Rightarrow> audit_log list" where
  "write_audit lib w db =
    (let prev_hash =
           (if truthy_str (w_tenant_id w)
            then (case tenant_logs (the (w_tenant_id w)) db of
                    [] \<Rightarrow> None
                  | ls \<Rightarrow> Some (a_hash (last ls)))
            else None);
         record = audit_record (w_actor_type w) (w_actor_id w) (w_tenant_id w) (w_action w)
                    (w_resource_type w) (w_resource_id w) (w_payload w);
         hash_value = hmac_hash lib prev_hash record
     in db @ [\<lparr>a_id = w_id w, a_actor_type = w_actor_type w, a_actor_id = w_actor_id w,
               a_tenant_id = w_tenant_id w, a_action = w_action w,
               a_resource_type = w_resource_type w, a_resource_id = w_resource_id w,
               a_payload = w_payload w, a_prev_hash = prev_hash, a_hash = hash_value\<rparr>])"

text \<open>A history of the table: the calls of \<open>write_audit\<close> made so far, in order.\<close>

definition audit_writes :: "py_lib \<Rightarrow> audit_write list \<Rightarrow> audit_log list" where
  "audit_writes lib ws = foldl (\<lambda>db w. write_audit lib w db) [] ws"

datatype verify_result =
    VerifyOk nat
  | VerifyBroken nat string string string

text \<open>The loop of \<open>verify_audit_chain\<close>: \<open>idx\<close> counts the rows seen, \<open>prev_hash\<close> is the
  stored hash of the row before; \<open>Some\<close> is the early return at a mismatch.\<close>

fun verify_loop ::
  "py_lib \<Rightarrow> nat \<Rightarrow> string option \<Rightarrow> audit_log list \<Rightarrow> verify_result option" where
  "verify_loop lib idx prev_hash [] = None"
| "verify_loop lib idx prev_hash (l # ls) =
    (let expected_hash = hmac_hash lib prev_hash (record_of l)
     in if a_hash l \<noteq> expected_hash
        then Some (VerifyBroken idx (a_id l) expected_hash (a_hash l))
        else verify_loop lib (Suc idx) (Some (a_hash l)) ls)"

definition verify_audit_chain :: "py_lib \<Rightarrow> string option \<Rightarrow> audit_log list \<Rightarrow> verify_result" where
  "verify_audit_chain lib tenant_id db =
    (let logs = (if truthy_str tenant_id then tenant_logs (the tenant_id) db else db)
     in case verify_loop lib 0 None logs of
          Some r \<Rightarrow> r
        | None \<Rightarrow> VerifyOk (length logs))"

text \<open>
  The chain invariant on the rows of one tenant: every row stores as \<open>prev_hash\<close> the
  hash of the row before it (\<open>None\<close> for the first), and its own hash is the keyed
  digest of that previous hash followed by the canonical JSON of its record.
\<close>

fun chain_ok :: "py_lib \<Rightarrow> string option \<Rightarrow> audit_log list \<Rightarrow> bool" where
  "chain_ok lib prev [] = True"
| "chain_ok lib prev (l # ls) =
    (a_prev_hash l = prev \<and> a_hash l = hmac_hash lib prev (record_of l)
     \<and> chain_ok lib (Some (a_hash l)) ls)"

text \<open>
  The chain invariant in the words of the specification,
  \<open>hash = HMAC-SHA256(secret, prev_hash || canonical_json(record_without_hash))\<close>:
  \<open>record_without_hash\<close> is the dictionary of the seven hashed columns of a row (the
  primary key, the timestamp and the two hash columns are not part of it), canonical
  JSON has its keys sorted and the separators \<open>,\<close> and \<open>:\<close> without whitespace, and a
  missing previous hash contributes the empty text.
\<close>

definition record_without_hash :: "audit_log \<Rightarrow> pyval" where
  "record_without_hash l =
    PDict [(''actor_type'', PStr (a_actor_type l)),
           (''actor_id'', PStr (a_actor_id l)),
           (''tenant_id'', (case a_tenant_id l of None \<Rightarrow> PNone | Some s \<Rightarrow> PStr s)),
           (''action'', PStr (a_action l)),
           (''resource_type'', PStr (a_resource_type l)),
           (''resource_id'', (case a_resource_id l of None \<Rightarrow> PNone | Some s \<Rightarrow> PStr s)),
           (''payload'', a_payload l)]"

definition chain_hash :: "py_lib \<Rightarrow> string option \<Rightarrow> audit_log \<Rightarrow> string" where
  "chain_hash lib prev l =
    hmac_sha256_hex lib (AUDIT_HMAC_SECRET lib)
      ((case prev of None \<Rightarrow> [] | Some p \<Rightarrow> p)
       @ json_dumps lib '','' '':'' (record_without_hash l))"

text \<open>The hash that re-deriving gives for row \<open>i\<close> of a list of rows: the chain hash of
  the row over the stored hash of the row before it (over \<open>first\<close> for row 0, \<open>None\<close> in
  the source).\<close>

definition rederived :: "py_lib \<Rightarrow> string option \<Rightarrow> audit_log list \<Rightarrow> nat \<Rightarrow> string" where
  "rederived lib first logs i =
    chain_hash lib (if i = 0 then first else Some (a_hash (logs ! (i - 1)))) (logs ! i)"

text \<open>A library for running the definitions: the digests are replaced by functions that
  return their input, so that two different inputs have different digests.\<close>

definition toy_lib :: py_lib where
  "toy_lib = \<lparr>float_repr = (\<lambda>r. ''0.0''), float_of_str = (\<lambda>s. None), str_of = (\<lambda>v. ''''),
              sha256_hex = (\<lambda>s. s), hmac_sha256_hex = (\<lambda>k s. k @ s),
              AUDIT_HMAC_SECRET = ''k''\<rparr>"

definition w1 :: audit_write where
  "w1 = \<lparr>w_id = ''1'', w_actor_type = ''user'', w_actor_id = ''a'', w_tenant_id = Some ''t'',
         w_action = ''run.create'', w_resource_type = ''run'', w_resource_id = Some ''r'',
         w_payload = PDict [(''n'', PInt 1)]\<rparr>"

definition w2 :: audit_write where
  "w2 = \<lparr>w_id = ''2'', w_actor_type = ''user'', w_actor_id = ''a'', w_tenant_id = Some ''t'',
         w_action = ''tools.invoke'', w_resource_type = ''tool'', w_resource_id = None,
         w_payload = PNone\<rparr>"

text \<open>The table after the two writes, with the payload of the first row altered.\<close>

definition tampered_db :: "audit_log list" where
  "tampered_db =
     (let db = audit_writes toy_lib [w1, w2]
      in (hd db)\<lparr>a_payload := PDict [(''n'', PInt 3)]\<rparr> # tl db)"

text \<open>The canonical JSON of the records of the two writes and of the altered first
  row, written out.\<close>

definition w1_canonical :: string where
  "w1_canonical =
     ''{'' @ quoted ''action'' @ '':'' @ quoted ''run.create''
     @ '','' @ quoted ''actor_id'' @ '':'' @ quoted ''a''
     @ '','' @ quoted ''actor_type'' @ '':'' @ quoted ''user''
     @ '','' @ quoted ''payload'' @ '':{'' @ quoted ''n'' @ '':1}''
     @ '','' @ quoted ''resource_id'' @ '':'' @ quoted ''r''
     @ '','' @ quoted ''resource_type'' @ '':'' @ quoted ''run''
     @ '','' @ quoted ''tenant_id'' @ '':'' @ quoted ''t'' @ ''}''"

definition w1_altered :: string where
  "w1_altered =
     ''{'' @ quoted ''action'' @ '':'' @ quoted ''run.create''
     @ '','' @ quoted ''actor_id'' @ '':'' @ quoted ''a''
     @ '','' @ quoted ''actor_type'' @ '':'' @ quoted ''user''
     @ '','' @ quoted ''payload'' @ '':{'' @ quoted ''n'' @ '':3}''
     @ '','' @ quoted ''resource_id'' @ '':'' @ quoted ''r''
     @ '','' @ quoted ''resource_type'' @ '':'' @ quoted ''run''
     @ '','' @ quoted ''tenant_id'' @ '':'' @ quoted ''t'' @ ''}''"

definition w2_canonical :: string where
  "w2_canonical =
     ''{'' @ quoted ''action'' @ '':'' @ quoted ''tools.invoke''
     @ '','' @ quoted ''actor_id'' @ '':'' @ quoted ''a''
     @ '','' @ quoted ''actor_type'' @ '':'' @ quoted ''user''
     @ '','' @ quoted ''payload'' @ '':null''
     @ '','' @ quoted ''resource_id'' @ '':null''
     @ '','' @ quoted ''resource_type'' @ '':'' @ quoted ''tool''
     @ '','' @ quoted ''tenant_id'' @ '':'' @ quoted ''t'' @ ''}''"

section \<open>Approvals (gateway/app/security.py, gateway/app/routers/approvals.py)\<close>

text \<open>A row of \<open>approvals\<close>; \<open>sig_expires_at\<close> and the clock are points on one integer
  time line (any unit, a millisecond for instance).\<close>

record approval =
  ap_id :: string
  ap_run_id :: string
  ap_tenant_id :: string
  ap_project_id :: "string option"
  ap_step_name :: string
  ap_approved :: bool
  ap_token :: "string option"
  ap_sig :: "string option"
  ap_sig_expires_at :: "int option"

text \<open>\<open>verify_approval(token, sig, expires_at)\<close> at the time \<open>now\<close>. The token is only
  split at its dots; the source compares it with nothing.\<close>

definition verify_approval :: "int \<Rightarrow> string \<Rightarrow> string option \<Rightarrow> int option \<Rightarrow> bool" where
  "verify_approval now token sig expires_at =
    (case expires_at of
       None \<Rightarrow> False
     | Some e \<Rightarrow>
         if now > e then False
         else if length (split_on CHR ''.'' token) \<noteq> 2 then False
         else (case sig of None \<Rightarrow> False | Some s \<Rightarrow> length s > 0))"

record gateway_db =
  approvals :: "approval list"
  audit_logs :: "audit_log list"

datatype approve_response = AlreadyApproved | ApprovedNow string

text \<open>The query of \<open>approve_approval\<close>: the id and the tenant must match, and the project
  as well when the request selects one.\<close>

definition approval_matches :: "string \<Rightarrow> string \<Rightarrow> string option \<Rightarrow> approval \<Rightarrow> bool" where
  "approval_matches approval_id tenant_id project_id a =
    (ap_id a = approval_id \<and> ap_tenant_id a = tenant_id
     \<and> (if truthy_str project_id then ap_project_id a = project_id else True))"

text \<open>
  \<open>approve_approval\<close> after the \<open>authorize("approve", "approval")\<close> dependency has let
  the request through and tenant and project are resolved. \<open>actor\<close> is the e-mail address
  on the request (or \<open>"unknown"\<close>), \<open>audit_id\<close> the key of the audit row written at the
  end. \<open>Inl\<close> is the raised \<open>HTTPException\<close>: nothing is committed then.
\<close>

definition approve_approval ::
  "py_lib \<Rightarrow> int \<Rightarrow> string \<Rightarrow> string \<Rightarrow> gateway_db \<Rightarrow> string \<Rightarrow> string option \<Rightarrow>
   string \<Rightarrow> string option \<Rightarrow> http_error + (approve_response \<times> gateway_db)" where
  "approve_approval lib now audit_id actor db tenant_id project_id approval_id token =
    (case find (approval_matches approval_id tenant_id project_id) (approvals db) of
       None \<Rightarrow> Inl NotFound404
     | Some a \<Rightarrow>
         if ap_approved a then Inr (AlreadyApproved, db)
         else
           let refused =
             (if truthy_str (ap_sig a) \<and> ap_sig_expires_at a \<noteq> None then
                (if \<not> truthy_str token then Some BadRequest400
                 else if \<not> verify_approval now (the token) (ap_sig a) (ap_sig_expires_at a)
                   then Some Forbidden403
                 else None)
              else if truthy_str (ap_token a) \<and> ap_token a \<noteq> token then Some Forbidden403
              else None)
           in (case refused of
                 Some e \<Rightarrow> Inl e
               | None \<Rightarrow>
                   Inr (ApprovedNow approval_id,
                        db\<lparr>approvals :=
                              (case update_first (approval_matches approval_id tenant_id project_id)
                                      (\<lambda>x. x\<lparr>ap_approved := True\<rparr>) (approvals db) of
                                 None \<Rightarrow> approvals db
                               | Some as \<Rightarrow> as),
                            audit_logs :=
                              write_audit lib
                                \<lparr>w_id = audit_id, w_actor_type = ''user'', w_actor_id = actor,
                                 w_tenant_id = Some tenant_id,
                                 w_action = ''approval.approved'',
                                 w_resource_type = ''approval'',
                                 w_resource_id = Some approval_id,
                                 w_payload = PDict [(''run_id'', PStr (ap_run_id a)),
                                                    (''step_name'', PStr (ap_step_name a))]\<rparr>
                                (audit_logs db)\<rparr>)))"

text \<open>Whether an approval is marked approved in a database.\<close>

definition is_approved :: "gateway_db \<Rightarrow> string \<Rightarrow> bool" where
  "is_approved db approval_id =
    (case find (\<lambda>a. ap_id a = approval_id) (approvals db) of
       None \<Rightarrow> False
     | Some a \<Rightarrow> ap_approved a)"

text \<open>
  An approval as run creation stores it: a signature (a hexadecimal digest) that expires
  at time 1000, no legacy token. The token \<open>sign_approval\<close> hands out for it is the nonce,
  a dot, and the first sixteen digits of the signature.
\<close>

definition pending_approval :: approval where
  "pending_approval =
    \<lparr>ap_id = ''ap-1'', ap_run_id = ''run-1'', ap_tenant_id = ''t'', ap_project_id = None,
     ap_step_name = ''drain'', ap_approved = False, ap_token = None,
     ap_sig = Some ''9f86d081884c7d659a2feaa0c55ad015a3bf4f1b2b0b822cd15d6c15b0f00a08'',
     ap_sig_expires_at = Some 1000\<rparr>"

definition approvals_db :: gateway_db where
  "approvals_db = \<lparr>approvals = [pending_approval], audit_logs = []\<rparr>"

section \<open>Precondition expressions (gateway/app/policy_engine.py)\<close>

subsection \<open>Character classes\<close>

text \<open>\<open>str.isspace\<close>, \<open>str.isalnum\<close>, \<open>str.isdigit\<close> and \<open>str.lower\<close> on code points
  below 256.\<close>

definition isspace :: "char \<Rightarrow> bool" where
  "isspace c = ((of_char c :: nat) \<in> {9, 10, 11, 12, 13, 28, 29, 30, 31, 32, 133, 160})"

definition isalnum :: "char \<Rightarrow> bool" where
  "isalnum c =
    (let n = (of_char c :: nat) in
       (48 \<le> n \<and> n \<le> 57) \<or> (65 \<le> n \<and> n \<le> 90) \<or> (97 \<le> n \<and> n \<le> 122)
       \<or> n \<in> {170, 178, 179, 181, 185, 186, 188, 189, 190}
       \<or> (192 \<le> n \<and> n \<le> 214) \<or> (216 \<le> n \<and> n \<le> 246) \<or> 248 \<le> n)"

definition isdigit_char :: "char \<Rightarrow> bool" where
  "isdigit_char c =
    (let n = (of_char c :: nat) in (48 \<le> n \<and> n \<le> 57) \<or> n \<in> {178, 179, 185})"

definition isdigit :: "string \<Rightarrow> bool" where
  "isdigit s = (s \<noteq> [] \<and> list_all isdigit_char s)"

definition lower_char :: "char \<Rightarrow> char" where
  "lower_char c =
    (let n = (of_char c :: nat) in
       if (65 \<le> n \<and> n \<le> 90) \<or> (192 \<le> n \<and> n \<le> 214) \<or> (216 \<le> n \<and> n \<le> 222)
       then char_of (n + 32) else c)"

definition lower :: "string \<Rightarrow> string" where
  "lower s = map lower_char s"

subsection \<open>The tokenizer\<close>

text \<open>The inner loop of a string literal, started after the opening quote: it returns
  the characters it passes and what is left, beginning at the closing quote if there is
  one. A backslash takes the next character with it.\<close>

fun scan_string :: "char \<Rightarrow> string \<Rightarrow> string \<times> string" where
  "scan_string quote [] = ([], [])"
| "scan_string quote [c] = (if c = quote then ([], [c]) else ([c], []))"
| "scan_string quote (c # d # cs) =
    (if c = quote then ([], c # d # cs)
     else if c = CHR 0x5C
       then (let (body, rest) = scan_string quote cs in (c # d # body, rest))
       else (let (body, rest) = scan_string quote (d # cs) in (c # body, rest)))"

text \<open>The inner loop of the last branch: the longest run of letters, digits, dots and
  underscores, possibly empty.\<close>

definition ident_char :: "char \<Rightarrow> bool" where
  "ident_char c = (isalnum c \<or> c = CHR ''.'' \<or> c = CHR ''_'')"

fun scan_ident :: "string \<Rightarrow> string \<times> string" where
  "scan_ident [] = ([], [])"
| "scan_ident (c # cs) =
    (if ident_char c then (let (tok, rest) = scan_ident cs in (c # tok, rest))
     else ([], c # cs))"

text \<open>
  The main loop of \<open>_tokenize\<close>, on the part \<open>expr[i:]\<close> of the expression that is
  still to be read and the tokens collected so far. The loop need not end (its last
  branch appends a token without moving \<open>i\<close> when the character at \<open>i\<close> starts none),
  so the result is an option and \<open>None\<close> means that the call does not return.
\<close>

partial_function (option) tokenize_loop :: "string \<Rightarrow> string list \<Rightarrow> string list option" where
  "tokenize_loop rest tokens =
    (if rest = [] then Some tokens
     else if isspace (hd rest) then tokenize_loop (tl rest) tokens
     else if take 2 rest \<in> {''=='', ''!='', ''<='', ''>='', ''in'', ''not''} then
       (if take 5 rest = ''not in'' then tokenize_loop (drop 5 rest) (tokens @ [''not in''])
        else if take 2 rest \<in> {''=='', ''!='', ''<='', ''>=''}
          then tokenize_loop (drop 2 rest) (tokens @ [take 2 rest])
        else tokenize_loop (tl rest) (tokens @ [[hd rest]]))
     else if hd rest \<in> {CHR ''='', CHR ''<'', CHR ''>'', CHR ''('', CHR '')'', CHR ''&'', CHR ''|''}
       then tokenize_loop (tl rest) (tokens @ [[hd rest]])
     else if hd rest \<in> {CHR 0x27, CHR 0x22} then
       (let (body, rest') = scan_string (hd rest) (tl rest)
        in tokenize_loop (drop 1 rest') (tokens @ [hd rest # body @ take 1 rest']))
     else
       (let (tok, rest') = scan_ident rest
        in tokenize_loop rest' (tokens @ [tok])))"

declare tokenize_loop.simps [code]

definition tokenize :: "string \<Rightarrow> string list option" where
  "tokenize expr = tokenize_loop expr []"

subsection \<open>Values of tokens\<close>

datatype py_exc = IndexError | ValueError | AttributeError

text \<open>\<open>int(token)\<close> on a token made of digits and minus signs: an optional minus sign
  followed by decimal digits, anything else is a \<open>ValueError\<close>.\<close>

definition ascii_digit :: "char \<Rightarrow> bool" where
  "ascii_digit c = (48 \<le> (of_char c :: nat) \<and> (of_char c :: nat) \<le> 57)"

definition nat_of_digits :: "string \<Rightarrow> nat" where
  "nat_of_digits s = foldl (\<lambda>n c. 10 * n + (of_char c - 48)) 0 s"

definition int_of_str :: "string \<Rightarrow> py_exc + int" where
  "int_of_str s =
    (case s of
       [] \<Rightarrow> Inl ValueError
     | c # cs \<Rightarrow>
         if c = CHR ''-'' then
           (if cs \<noteq> [] \<and> list_all ascii_digit cs then Inr (- int (nat_of_digits cs))
            else Inl ValueError)
         else if list_all ascii_digit s then Inr (int (nat_of_digits s))
         else Inl ValueError)"

text \<open>\<open>_parse_value\<close>: a quoted literal, a number, a boolean, or an identifier looked up
  in the context or the step.\<close>

definition parse_value ::
  "py_lib \<Rightarrow> string \<Rightarrow> (string \<times> pyval) list \<Rightarrow> (string \<times> pyval) list \<Rightarrow> py_exc + pyval" where
  "parse_value lib token context step =
    (if token \<noteq> [] \<and> hd token \<in> {CHR 0x27, CHR 0x22} then Inr (PStr (butlast (tl token)))
     else if isdigit (filter (\<lambda>c. c \<noteq> CHR ''-'') (filter (\<lambda>c. c \<noteq> CHR ''.'') token)) then
       (if CHR ''.'' \<in> set token
        then (case float_of_str lib token of None \<Rightarrow> Inl ValueError | Some r \<Rightarrow> Inr (PFloat r))
        else (case int_of_str token of Inl e \<Rightarrow> Inl e | Inr i \<Rightarrow> Inr (PInt i)))
     else if lower token \<in> {''true'', ''false''} then Inr (PBool (lower token = ''true''))
     else
       (case split_on CHR ''.'' token of
          [namespace, key] \<Rightarrow>
            if namespace = ''context'' then Inr (dict_get context key)
            else if namespace = ''step'' then Inr (dict_get step key)
            else Inr PNone
        | [t] \<Rightarrow>
            (case map_of context token of
               Some v \<Rightarrow> Inr v
             | None \<Rightarrow> Inr (dict_get step token))
        | _ \<Rightarrow> Inr PNone))"

subsection \<open>Evaluation\<close>

text \<open>\<open>str(b)\<close> for a boolean.\<close>

definition str_bool :: "bool \<Rightarrow> string" where
  "str_bool b = (if b then ''True'' else ''False'')"

text \<open>
  The first loop of \<open>_eval_expr\<close>, over the tokens from position \<open>i\<close> on with the
  current \<open>paren_level\<close> and \<open>paren_start\<close>: \<open>Inl (paren_start, i)\<close> when a closing
  parenthesis brings the level back to zero at position \<open>i\<close>, \<open>Inr paren_level\<close> when the
  loop runs to the end.
\<close>

fun scan_parens :: "string list \<Rightarrow> nat \<Rightarrow> int \<Rightarrow> int \<Rightarrow> (int \<times> nat) + int" where
  "scan_parens [] i paren_level paren_start = Inr paren_level"
| "scan_parens (tok # toks) i paren_level paren_start =
    (if tok = ''('' then
       scan_parens toks (Suc i) (paren_level + 1) (if paren_level = 0 then int i else paren_start)
     else if tok = '')'' then
       (if paren_level - 1 = 0 then Inl (paren_start, i)
        else scan_parens toks (Suc i) (paren_level - 1) paren_start)
     else scan_parens toks (Suc i) paren_level paren_start)"

text \<open>
  The \<open>while\<close> loop over the comparison and membership operators. Each operator found
  is replaced, with its two operands, by the string of its result, and the scan starts
  again at 0. The result is an exception, an early \<open>return\<close> of a boolean, or the tokens
  left when the loop ends.
\<close>

datatype cmp_result = Raised py_exc | Returned bool | Reduced "string list"

function reduce_cmp ::
  "py_lib \<Rightarrow> (string \<times> pyval) list \<Rightarrow> (string \<times> pyval) list \<Rightarrow> string list \<Rightarrow> nat
   \<Rightarrow> cmp_result" where
  "reduce_cmp lib context step tokens i =
    (if \<not> i < length tokens then Reduced tokens
     else if tokens ! i \<in> {''=='', ''!=''} then
       (if i = 0 \<or> i = length tokens - 1 then Returned False
        else
          (case parse_value lib (tokens ! (i - 1)) context step of
             Inl e \<Rightarrow> Raised e
           | Inr left \<Rightarrow>
          (case parse_value lib (tokens ! (i + 1)) context step of
             Inl e \<Rightarrow> Raised e
           | Inr right \<Rightarrow>
               let result = (if tokens ! i = ''=='' then py_eq left right
                             else \<not> py_eq left right)
               in reduce_cmp lib context step
                    (take (i - 1) tokens @ [str_bool result] @ drop (i + 2) tokens) 0)))
     else if i < length tokens - 1 \<and> take 2 (drop i tokens) = [''not'', ''in''] then
       (if i = 0 \<or> i \<ge> length tokens - 2 then Returned False
        else
          (case parse_value lib (tokens ! (i - 1)) context step of
             Inl e \<Rightarrow> Raised e
           | Inr left \<Rightarrow>
          (case parse_value lib (tokens ! (i + 2)) context step of
             Inl e \<Rightarrow> Raised e
           | Inr right \<Rightarrow>
               let result = (case right of
                               PList xs \<Rightarrow> \<not> py_in_list left xs
                             | _ \<Rightarrow> \<not> is_substring (str_of lib left) (str_of lib right))
               in reduce_cmp lib context step
                    (take (i - 1) tokens @ [str_bool result] @ drop (i + 3) tokens) 0)))
     else if i < length tokens - 1 \<and> tokens ! i = ''in'' then
       (if i = 0 \<or> i = length tokens - 1 then Returned False
        else
          (case parse_value lib (tokens ! (i - 1)) context step of
             Inl e \<Rightarrow> Raised e
           | Inr left \<Rightarrow>
          (case parse_value lib (tokens ! (i + 1)) context step of
             Inl e \<Rightarrow> Raised e
           | Inr right \<Rightarrow>
               let result = (case right of
                               PList xs \<Rightarrow> py_in_list left xs
                             | _ \<Rightarrow> is_substring (str_of lib left) (str_of lib right))
               in reduce_cmp lib context step
                    (take (i - 1) tokens @ [str_bool result] @ drop (i + 2) tokens) 0)))
     else reduce_cmp lib context step tokens (Suc i))"
  by pat_completeness auto
termination
  by (relation "measures [\<lambda>(lib, context, step, tokens, i). length tokens,
                          \<lambda>(lib, context, step, tokens, i). length tokens - i]")
     auto

declare reduce_cmp.simps [simp del]

text \<open>\<open>xs[i]\<close> with Python's indices: a negative index counts from the end, an index
  out of range raises \<open>IndexError\<close>.\<close>

definition py_index :: "'a list \<Rightarrow> int \<Rightarrow> py_exc + 'a" where
  "py_index xs i =
    (if 0 \<le> i
     then (if nat i < length xs then Inr (xs ! nat i) else Inl IndexError)
     else (if nat (- i) \<le> length xs then Inr (xs ! (length xs - nat (- i)))
           else Inl IndexError))"

text \<open>\<open>xs.index(x)\<close> for an element that occurs in \<open>xs\<close>.\<close>

fun index_of :: "'a \<Rightarrow> 'a list \<Rightarrow> nat" where
  "index_of x [] = 0"
| "index_of x (y # ys) = (if x = y then 0 else Suc (index_of x ys))"

text \<open>The two branches for \<open>and\<close> and \<open>or\<close>: the tokens on both sides of the first
  occurrence are read as values and combined.\<close>

definition eval_connective ::
  "py_lib \<Rightarrow> string \<Rightarrow> (bool \<Rightarrow> bool \<Rightarrow> bool) \<Rightarrow> string list
   \<Rightarrow> (string \<times> pyval) list \<Rightarrow> (string \<times> pyval) list \<Rightarrow> py_exc + bool" where
  "eval_connective lib word combine tokens context step =
    (let idx = int (index_of word tokens) in
     case py_index tokens (idx - 1) of
       Inl e \<Rightarrow> Inl e
     | Inr ltok \<Rightarrow>
     (case parse_value lib ltok context step of
       Inl e \<Rightarrow> Inl e
     | Inr left \<Rightarrow>
     (case py_index tokens (idx + 1) of
       Inl e \<Rightarrow> Inl e
     | Inr rtok \<Rightarrow>
     (case parse_value lib rtok context step of
       Inl e \<Rightarrow> Inl e
     | Inr right \<Rightarrow> Inr (combine (py_truthy left) (py_truthy right))))))"

text \<open>\<open>_eval_expr\<close> below its parenthesis handling.\<close>

definition eval_flat ::
  "py_lib \<Rightarrow> string list \<Rightarrow> (string \<times> pyval) list \<Rightarrow> (string \<times> pyval) list \<Rightarrow> py_exc + bool" where
  "eval_flat lib tokens0 context step =
    (case reduce_cmp lib context step tokens0 0 of
       Raised e \<Rightarrow> Inl e
     | Returned b \<Rightarrow> Inr b
     | Reduced tokens \<Rightarrow>
         if ''and'' \<in> set tokens then eval_connective lib ''and'' (\<and>) tokens context step
         else if ''or'' \<in> set tokens then eval_connective lib ''or'' (\<or>) tokens context step
         else if length tokens = 1 then
           (case parse_value lib (tokens ! 0) context step of
              Inl e \<Rightarrow> Inl e
            | Inr val \<Rightarrow> Inr (py_truthy val))
         else Inr False)"

text \<open>\<open>_eval_expr\<close>: the first top-level parenthesis group is evaluated and replaced by
  the string of its value, and the new token list is evaluated in turn.\<close>

function eval_expr ::
  "py_lib \<Rightarrow> string list \<Rightarrow> (string \<times> pyval) list \<Rightarrow> (string \<times> pyval) list \<Rightarrow> py_exc + bool" where
  "eval_expr lib tokens context step =
    (if tokens = [] then Inr False
     else
       (case scan_parens tokens 0 0 (- 1) of
          Inl (paren_start, i) \<Rightarrow>
            (case eval_expr lib (take (i - nat (paren_start + 1)) (drop (nat (paren_start + 1)) tokens))
                    context step of
               Inl e \<Rightarrow> Inl e
             | Inr inner_result \<Rightarrow>
                 eval_expr lib
                   (take (nat paren_start) tokens @ [str_bool inner_result] @ drop (i + 1) tokens)
                   context step)
        | Inr paren_level \<Rightarrow>
            if paren_level \<noteq> 0 then Inr False
            else eval_flat lib tokens context step))"
  by pat_completeness auto
termination
proof -
  have inv: "scan_parens toks k lvl ps = Inl (s, e) \<Longrightarrow> (0 < lvl \<longrightarrow> 0 \<le> ps \<and> ps < int k)
      \<Longrightarrow> 0 \<le> s \<and> s < int e \<and> e < k + length toks" for toks k lvl ps s e
  proof (induction toks arbitrary: k lvl ps)
    case Nil
    then show ?case by simp
  next
    case (Cons tok toks)
    show ?case
    proof (cases "tok = ''(''")
      case True
      with Cons.prems(1) have
        "scan_parens toks (Suc k) (lvl + 1) (if lvl = 0 then int k else ps) = Inl (s, e)"
        by simp
      from Cons.IH[OF this] Cons.prems(2) show ?thesis by (auto split: if_splits)
    next
      case notopen: False
      show ?thesis
      proof (cases "tok = '')''")
        case True
        show ?thesis
        proof (cases "lvl - 1 = 0")
          case True
          with \<open>tok = '')''\<close> notopen Cons.prems show ?thesis by auto
        next
          case False
          with \<open>tok = '')''\<close> notopen Cons.prems(1) have
            "scan_parens toks (Suc k) (lvl - 1) ps = Inl (s, e)" by simp
          from Cons.IH[OF this] Cons.prems(2) show ?thesis by auto
        qed
      next
        case False
        with notopen Cons.prems(1) have "scan_parens toks (Suc k) lvl ps = Inl (s, e)" by simp
        from Cons.IH[OF this] Cons.prems(2) show ?thesis by auto
      qed
    qed
  qed
  show ?thesis
  proof (relation "measure (\<lambda>(lib, tokens, context, step). length tokens)", goal_cases)
    case 1
    then show ?case by simp
  next
    case (2 lib tokens ctx step x paren_start i)
    from inv[of tokens 0 0 "-1" paren_start i] 2 have "i < length tokens"
      by simp
    then show ?case by auto
  next
    case (3 lib tokens ctx step x paren_start i inner)
    from inv[of tokens 0 0 "-1" paren_start i] 3 have "0 \<le> paren_start \<and> paren_start < int i \<and> i < length tokens"
      by simp
    then show ?case by auto
  qed
qed

declare eval_expr.simps [simp del]

subsection \<open>Decisions\<close>

text \<open>One entry of \<open>policy["preconditions"]\<close>; \<open>when\<close> and \<open>then\<close> are read with the
  default \<open>""\<close>, \<open>step\<close> is \<open>None\<close> when the rule names no step.\<close>

record precondition =
  p_when :: string
  p_then :: string
  p_step :: "string option"

text \<open>
  \<open>decide\<close>. The outer option is \<open>None\<close> when the call does not return (the tokenizer of
  some rule it reaches runs forever); \<open>Some None\<close> is the return value \<open>None\<close>, and
  \<open>Some (Some t)\<close> the \<open>then\<close> of the rule that decided. An exception raised while a
  rule is evaluated is caught and the rule skipped.
\<close>

fun decide ::
  "py_lib \<Rightarrow> precondition list \<Rightarrow> (string \<times> pyval) list \<Rightarrow> (string \<times> pyval) list
   \<Rightarrow> string option option" where
  "decide lib [] step context = Some None"
| "decide lib (prec # rest) step context =
    (if truthy_str (p_step prec) \<and> p_step prec \<noteq> Some (dict_get_str step ''name'' '''')
     then decide lib rest step context
     else
       (case tokenize (p_when prec) of
          None \<Rightarrow> None
        | Some tokens \<Rightarrow>
            (case eval_expr lib tokens context step of
               Inr True \<Rightarrow> Some (Some (p_then prec))
             | _ \<Rightarrow> decide lib rest step context)))"

section \<open>Policy validation (orchestrator/app/activities.py)\<close>

text \<open>
  A policy document after \<open>yaml.safe_load\<close>. A key that is absent reads as the default
  the code gives it: the empty dictionary for \<open>tool_allowlist\<close>, the empty list for
  \<open>preconditions\<close>, \<open>None\<close> for the two budgets.
\<close>

record policy =
  tool_allowlist :: "(string \<times> string list) list"
  preconditions :: "precondition list"
  max_tokens_per_run :: "int option"
  max_cost_per_run_usd :: "rat option"

text \<open>The result dictionary of \<open>policy_validate\<close>; \<open>require_approval\<close> is false when the
  key is absent.\<close>

record validation =
  ok :: bool
  reasons :: "string list"
  require_approval :: bool

text \<open>\<open>allowlist.get(role, [])\<close>.\<close>

definition allowlist_get :: "(string \<times> string list) list \<Rightarrow> string \<Rightarrow> string list" where
  "allowlist_get allowlist role = (case map_of allowlist role of None \<Rightarrow> [] | Some ts \<Rightarrow> ts)"

text \<open>The loop \<open>for role in user_roles\<close> that sets \<open>allowed\<close> and stops at the first
  role whose list holds the tool.\<close>

fun role_allows :: "(string \<times> string list) list \<Rightarrow> string \<Rightarrow> string list \<Rightarrow> bool" where
  "role_allows allowlist tool_name [] = False"
| "role_allows allowlist tool_name (role # roles) =
    (if tool_name \<in> set (allowlist_get allowlist role) then True
     else role_allows allowlist tool_name roles)"

text \<open>The allowlist gate: the reasons it contributes, none when the step passes.\<close>

definition allowlist_reasons ::
  "(string \<times> string list) list \<Rightarrow> string list \<Rightarrow> string \<Rightarrow> string list" where
  "allowlist_reasons allowlist user_roles tool_name =
    (if allowlist \<noteq> [] \<and> \<not> role_allows allowlist tool_name user_roles
     then [''tool not allowed for roles''] else [])"

text \<open>
  \<open>policy_validate\<close>. The JSON schemas of the tools are not part of the sources at
  hand: \<open>schema_errors tool input\<close> stands for the messages the validator yields for the
  schema registered for the tool, the empty list when there is none or the input is
  valid. \<open>engine_available\<close> says whether \<open>from policy_engine import decide\<close> succeeds; when
  it does not, the \<open>except\<close> branch logs and the preconditions are skipped. The result is
  \<open>None\<close> when \<open>decide\<close> does not return.
\<close>

definition policy_validate ::
  "py_lib \<Rightarrow> (string \<Rightarrow> pyval \<Rightarrow> string list) \<Rightarrow> bool \<Rightarrow>
   (string \<times> pyval) list \<Rightarrow> policy \<Rightarrow> string list \<Rightarrow> (string \<times> pyval) list
   \<Rightarrow> validation option" where
  "policy_validate lib schema_errors engine_available step pol user_roles context =
    (let tool_name = dict_get_str step ''tool'' '''';
         reasons1 = allowlist_reasons (tool_allowlist pol) user_roles tool_name;
         reasons2 = reasons1 @ schema_errors tool_name
                                 (case map_of step ''input'' of None \<Rightarrow> PDict [] | Some v \<Rightarrow> v)
     in if preconditions pol \<noteq> [] \<and> context \<noteq> [] \<and> engine_available then
          (case decide lib (preconditions pol) step context of
             None \<Rightarrow> None
           | Some decision \<Rightarrow>
               if decision = Some ''block''
               then Some \<lparr>ok = False, reasons = reasons2 @ [''precondition blocked''],
                          require_approval = False\<rparr>
               else if decision = Some ''require_approval''
               then Some \<lparr>ok = True, reasons = [], require_approval = True\<rparr>
               else Some \<lparr>ok = (reasons2 = []), reasons = reasons2, require_approval = False\<rparr>)
        else Some \<lparr>ok = (reasons2 = []), reasons = reasons2, require_approval = False\<rparr>)"

text \<open>
  What one rule does to \<open>decide\<close>: \<open>Some True\<close> when it decides, \<open>Some False\<close> when it
  is passed over (it names another step, its \<open>when\<close> is not truthy, or evaluating it
  raises), \<open>None\<close> when its tokenizer does not return.
\<close>

definition rule_outcome ::
  "py_lib \<Rightarrow> (string \<times> pyval) list \<Rightarrow> (string \<times> pyval) list \<Rightarrow> precondition \<Rightarrow> bool option" where
  "rule_outcome lib step context prec =
    (if truthy_str (p_step prec) \<and> p_step prec \<noteq> Some (dict_get_str step ''name'' '''')
     then Some False
     else (case tokenize (p_when prec) of
             None \<Rightarrow> None
           | Some tokens \<Rightarrow> Some (eval_expr lib tokens context step = Inr True)))"

text \<open>Examples: a drain step, a policy that lists the tool for \<open>SRE\<close> only, and two
  rules that both hold in every context.\<close>

definition no_schema :: "string \<Rightarrow> pyval \<Rightarrow> string list" where
  "no_schema tool_name inp = []"

definition drain_step :: "(string \<times> pyval) list" where
  "drain_step = [(''name'', PStr ''drain''), (''tool'', PStr ''k8s.drain_node''),
                 (''input'', PDict [(''node'', PStr ''n1'')])]"

definition prod_context :: "(string \<times> pyval) list" where
  "prod_context = [(''env'', PStr ''prod'')]"

definition rule_block :: precondition where
  "rule_block = \<lparr>p_when = ''true'', p_then = ''block'', p_step = None\<rparr>"

definition rule_approval :: precondition where
  "rule_approval = \<lparr>p_when = ''true'', p_then = ''require_approval'', p_step = None\<rparr>"

definition sre_policy :: "precondition list \<Rightarrow> policy" where
  "sre_policy pre = \<lparr>tool_allowlist = [(''SRE'', [''k8s.drain_node''])], preconditions = pre,
                      max_tokens_per_run = None, max_cost_per_run_usd = None\<rparr>"

text \<open>A rule whose condition compares with a negative number.\<close>

definition rule_negative :: precondition where
  "rule_negative = \<lparr>p_when = ''context.count == -1'', p_then = ''block'', p_step = None\<rparr>"

text \<open>
  A position at which the tokenizer makes no progress: the character there is not
  white space, starts no operator and no string literal, and is not a letter, digit,
  dot or underscore, so the last branch appends the empty token and leaves \<open>i\<close> where it
  is.
\<close>

definition stuck :: "string \<Rightarrow> bool" where
  "stuck rest =
    (rest \<noteq> [] \<and> \<not> isspace (hd rest)
     \<and> take 2 rest \<notin> {''=='', ''!='', ''<='', ''>='', ''in'', ''not''}
     \<and> hd rest \<notin> {CHR ''='', CHR ''<'', CHR ''>'', CHR ''('', CHR '')'', CHR ''&'', CHR ''|''}
     \<and> hd rest \<notin> {CHR 0x27, CHR 0x22}
     \<and> \<not> ident_char (hd rest))"


section \<open>Idempotency keys and adapter calls (orchestrator/app/utils.py, activities.py)\<close>

text \<open>\<open>make_idempotency_key\<close>: run id, step name and the SHA-256 digest of the arguments
  in sorted-key JSON (default separators), joined by colons.\<close>

definition make_idempotency_key :: "py_lib \<Rightarrow> string \<Rightarrow> string \<Rightarrow> pyval \<Rightarrow> string" where
  "make_idempotency_key lib rid step_name args =
    rid @ '':'' @ step_name @ '':'' @ sha256_hex lib (json_dumps lib '', '' '': '' args)"

text \<open>The \<open>call\<close> dictionary handed to an adapter.\<close>

record tool_call =
  tc_name :: string
  tc_input :: pyval
  tc_dryRun :: bool
  tc_idempotencyKey :: string

text \<open>
  What lies outside the engine: \<open>adapter_result call\<close> is the outcome of running the
  adapter activity on a call (\<open>Inl\<close> the message of the exception it ends with, after the
  retries of the workflow's retry policy; \<open>Inr\<close> the result dictionary),
  \<open>approval_granted id\<close> the outcome of \<open>wait_for_approval\<close>, \<open>wf_now\<close> the reading of the
  clock (one value for the whole run: no property below depends on time stamps).
\<close>

record activities_env =
  adapter_result :: "tool_call \<Rightarrow> string + (string \<times> pyval) list"
  approval_granted :: "string option \<Rightarrow> bool"
  wf_now :: int

text \<open>\<open>invoke_adapter\<close> and \<open>compensate\<close>: the call each of them builds, and its
  outcome.\<close>

definition invoke_call :: "string \<Rightarrow> pyval \<Rightarrow> bool \<Rightarrow> string \<Rightarrow> tool_call" where
  "invoke_call tool_name args dry_run key =
    \<lparr>tc_name = tool_name, tc_input = args, tc_dryRun = dry_run, tc_idempotencyKey = key\<rparr>"

definition compensate_call :: "string \<Rightarrow> pyval \<Rightarrow> bool \<Rightarrow> string \<Rightarrow> tool_call" where
  "compensate_call tool_name args dry_run key =
    \<lparr>tc_name = tool_name, tc_input = args, tc_dryRun = dry_run,
     tc_idempotencyKey = key @ ''-comp''\<rparr>"

definition invoke_adapter ::
  "activities_env \<Rightarrow> string \<Rightarrow> pyval \<Rightarrow> bool \<Rightarrow> string \<Rightarrow> string + (string \<times> pyval) list" where
  "invoke_adapter env tool_name args dry_run key =
    adapter_result env (invoke_call tool_name args dry_run key)"

definition compensate ::
  "activities_env \<Rightarrow> string \<Rightarrow> pyval \<Rightarrow> bool \<Rightarrow> string \<Rightarrow> string + (string \<times> pyval) list" where
  "compensate env tool_name args dry_run key =
    adapter_result env (compensate_call tool_name args dry_run key)"

section \<open>Planning a step (orchestrator/app/activities.py)\<close>

text \<open>The usage dictionary of the brain, a key that is absent read as zero; the whole
  dictionary is \<open>None\<close> when it is empty.\<close>

record usage =
  u_tokens_in :: int
  u_tokens_out :: int
  u_latency_ms :: int
  u_cost_usd :: rat

text \<open>One planned entry of the brain; an absent key is \<open>None\<close>.\<close>

record planned_entry =
  pe_name :: "string option"
  pe_tool :: "string option"
  pe_args :: "pyval option"
  pe_decision :: "string option"
  pe_reasons :: "string list option"

text \<open>What \<open>_brain_cache[run_id]\<close> holds once the brain has been called (the fallback
  \<open>{"planned": [], "usage": {}}\<close> when the call failed).\<close>

record brain_result =
  br_planned :: "planned_entry list"
  br_usage :: "usage option"

record plan =
  pl_tool :: string
  pl_args :: pyval
  pl_idempotencyKey :: string
  pl_block :: bool
  pl_reasons :: "string list"
  pl_usage :: "usage option"

definition step_input :: "(string \<times> pyval) list \<Rightarrow> pyval" where
  "step_input step = (case map_of step ''input'' of None \<Rightarrow> PDict [] | Some v \<Rightarrow> v)"

definition plan_step ::
  "py_lib \<Rightarrow> brain_result \<Rightarrow> string \<Rightarrow> (string \<times> pyval) list \<Rightarrow> plan" where
  "plan_step lib brain rid step =
    (let step_name = dict_get_str step ''name'' '''' in
     case find (\<lambda>p. pe_name p = Some step_name) (br_planned brain) of
       Some planned_step \<Rightarrow>
         let tool_name = (case pe_tool planned_step of
                            None \<Rightarrow> dict_get_str step ''tool'' '''' | Some t \<Rightarrow> t);
             args = (case pe_args planned_step of None \<Rightarrow> step_input step | Some a \<Rightarrow> a)
         in if pe_decision planned_step = Some ''block''
            then \<lparr>pl_tool = tool_name, pl_args = args,
                  pl_idempotencyKey = make_idempotency_key lib rid step_name args,
                  pl_block = True,
                  pl_reasons = (case pe_reasons planned_step of None \<Rightarrow> [] | Some rs \<Rightarrow> rs),
                  pl_usage = None\<rparr>
            else \<lparr>pl_tool = tool_name, pl_args = args,
                  pl_idempotencyKey = make_idempotency_key lib rid step_name args,
                  pl_block = False, pl_reasons = [], pl_usage = br_usage brain\<rparr>
     | None \<Rightarrow>
         \<lparr>pl_tool = dict_get_str step ''tool'' '''', pl_args = step_input step,
          pl_idempotencyKey = make_idempotency_key lib rid step_name (step_input step),
          pl_block = False, pl_reasons = [], pl_usage = br_usage brain\<rparr>)"

section \<open>The execution engine (orchestrator/app/workflows.py)\<close>

record totals =
  tokens_in :: int
  tokens_out :: int
  latency_ms :: int
  cost_usd :: rat

definition zero_totals :: totals where
  "zero_totals = \<lparr>tokens_in = 0, tokens_out = 0, latency_ms = 0, cost_usd = 0\<rparr>"

text \<open>The context \<open>load_context\<close> returns, as far as the workflow reads it.\<close>

record run_ctx =
  ctx_run_id :: string
  ctx_steps :: "(string \<times> pyval) list list"
  ctx_policy :: policy
  ctx_user_roles :: "string list"
  ctx_needs_approval :: "(string \<times> string option) list"
  ctx_context :: "(string \<times> pyval) list"

text \<open>
  The state a run changes: the running totals, the table of steps (written by
  \<open>record_step\<close>), the totals last stored in the run's metrics (by \<open>update_run_totals\<close>),
  and the adapter calls made so far, in order.
\<close>

record wf_state =
  wf_totals :: totals
  wf_steps :: "step_row list"
  wf_metrics :: "totals option"
  wf_calls :: "tool_call list"

datatype wf_outcome = Completed | Failed string

definition record_step_act ::
  "activities_env \<Rightarrow> string \<Rightarrow> string \<Rightarrow> step_fields \<Rightarrow> wf_state \<Rightarrow> wf_state" where
  "record_step_act env rid step_name flds st =
    st\<lparr>wf_steps := record_step (wf_now env) (wf_steps st) rid step_name flds\<rparr>"

definition skipped_fields :: "string \<Rightarrow> pyval \<Rightarrow> step_fields" where
  "skipped_fields key val =
    no_fields\<lparr>f_status := Some (StatusStr ''skipped''), f_error := Some (PDict [(key, val)])\<rparr>"

definition pending_fields :: "(string \<times> pyval) list \<Rightarrow> step_fields" where
  "pending_fields step =
    no_fields\<lparr>f_status := Some (StatusStr ''pending''),
              f_tool := Some (dict_get_str step ''tool'' ''''),
              f_input := Some (dict_get step ''input'')\<rparr>"

definition usage_dict :: "usage \<Rightarrow> pyval" where
  "usage_dict u = PDict [(''tokens_in'', PInt (u_tokens_in u)),
                         (''tokens_out'', PInt (u_tokens_out u)),
                         (''latency_ms'', PInt (u_latency_ms u)),
                         (''cost_usd'', PFloat (u_cost_usd u))]"

definition add_usage :: "totals \<Rightarrow> usage \<Rightarrow> totals" where
  "add_usage t u =
    \<lparr>tokens_in = tokens_in t + u_tokens_in u, tokens_out = tokens_out t + u_tokens_out u,
     latency_ms = latency_ms t + u_latency_ms u, cost_usd = cost_usd t + u_cost_usd u\<rparr>"

text \<open>The budget gate at the head of the loop body: the error it records, if any. The
  token budget is tested first.\<close>

definition budget_gate :: "policy \<Rightarrow> totals \<Rightarrow> string option" where
  "budget_gate pol t =
    (if max_tokens_per_run pol \<noteq> None \<and> tokens_in t + tokens_out t \<ge> the (max_tokens_per_run pol)
     then Some ''max_tokens_per_run exceeded''
     else if max_cost_per_run_usd pol \<noteq> None \<and> cost_usd t \<ge> the (max_cost_per_run_usd pol)
     then Some ''max_cost_per_run_usd exceeded''
     else None)"

text \<open>
  The part of the loop body from \<open>status = running\<close> on: the adapter call inside
  \<open>try\<close>, and the \<open>except\<close> branch with the compensation. The boolean says whether the
  exception is raised again, which ends the run.
\<close>

definition execute_step ::
  "activities_env \<Rightarrow> run_ctx \<Rightarrow> bool \<Rightarrow> (string \<times> pyval) list \<Rightarrow> plan \<Rightarrow> wf_state
   \<Rightarrow> string option \<times> wf_state" where
  "execute_step env ctx dry_run step pl st0 =
    (let rid = ctx_run_id ctx;
         step_name = dict_get_str step ''name'' '''';
         st1 = record_step_act env rid step_name
                 (no_fields\<lparr>f_status := Some (StatusStr ''running''),
                            f_started_at := Some (wf_now env),
                            f_idempotency_key := Some (pl_idempotencyKey pl)\<rparr>) st0;
         st2 = st1\<lparr>wf_calls := wf_calls st1 @
                    [invoke_call (pl_tool pl) (pl_args pl) dry_run (pl_idempotencyKey pl)]\<rparr>
     in case invoke_adapter env (pl_tool pl) (pl_args pl) dry_run (pl_idempotencyKey pl) of
          Inr res \<Rightarrow>
            let out = (case pl_usage pl of
                         None \<Rightarrow> PDict res
                       | Some u \<Rightarrow> PDict (dict_set res ''usage'' (usage_dict u)));
                tot = (case pl_usage pl of
                         None \<Rightarrow> wf_totals st2
                       | Some u \<Rightarrow> add_usage (wf_totals st2) u);
                st3 = st2\<lparr>wf_totals := tot, wf_metrics := Some tot\<rparr>
            in (None,
                record_step_act env rid step_name
                  (no_fields\<lparr>f_status := Some (StatusStr ''succeeded''), f_output := Some out,
                             f_ended_at := Some (wf_now env)\<rparr>) st3)
        | Inl exc \<Rightarrow>
            let st3 = record_step_act env rid step_name
                        (no_fields\<lparr>f_status := Some (StatusStr ''failed''),
                                   f_error := Some (PDict [(''msg'', PStr exc)]),
                                   f_ended_at := Some (wf_now env)\<rparr>) st2
            in (case map_of step ''compensate'' of
                  Some (PDict comp_d) \<Rightarrow>
                    if comp_d = [] then (Some exc, st3)
                    else
                      let ctool = dict_get_str comp_d ''tool'' '''';
                          cinput = (case map_of comp_d ''input'' of None \<Rightarrow> PDict [] | Some v \<Rightarrow> v);
                          st4 = st3\<lparr>wf_calls := wf_calls st3 @
                                     [compensate_call ctool cinput dry_run (pl_idempotencyKey pl)]\<rparr>
                      in (case compensate env ctool cinput dry_run (pl_idempotencyKey pl) of
                            Inr cres \<Rightarrow>
                              (Some exc,
                               record_step_act env rid step_name
                                 (no_fields\<lparr>f_status := Some (StatusStr ''compensated''),
                                    f_output := Some (PDict [(''compensation'', PDict cres)]),
                                    f_ended_at := Some (wf_now env)\<rparr>) st4)
                          | Inl comp_exc \<Rightarrow>
                              (Some exc,
                               record_step_act env rid step_name
                                 (no_fields\<lparr>f_error :=
                                      Some (PDict [(''compensation_failed'', PStr comp_exc)]),
                                    f_ended_at := Some (wf_now env)\<rparr>) st4))
                | _ \<Rightarrow> (Some exc, st3)))"

text \<open>
  The loop \<open>for step in steps\<close> of \<open>RunbookWorkflow.run\<close>. \<open>continue\<close> is the recursive
  call on the remaining steps; an exception that leaves the loop body ends the run with
  \<open>Failed\<close>. The result is \<open>None\<close> when \<open>policy_validate\<close> does not return.
\<close>

fun run_steps ::
  "py_lib \<Rightarrow> (string \<Rightarrow> pyval \<Rightarrow> string list) \<Rightarrow> bool \<Rightarrow> activities_env \<Rightarrow> brain_result
   \<Rightarrow> run_ctx \<Rightarrow> bool \<Rightarrow> (string \<times> pyval) list list \<Rightarrow> wf_state
   \<Rightarrow> (wf_outcome \<times> wf_state) option" where
  "run_steps lib schema_errors engine_available env brain ctx dry_run [] st =
     Some (Completed, st)"
| "run_steps lib schema_errors engine_available env brain ctx dry_run (step # rest) st =
    (let rid = ctx_run_id ctx;
         step_name = dict_get_str step ''name'' '''';
         st1 = record_step_act env rid step_name (pending_fields step) st
     in case budget_gate (ctx_policy ctx) (wf_totals st1) of
          Some msg \<Rightarrow>
            run_steps lib schema_errors engine_available env brain ctx dry_run rest
              (record_step_act env rid step_name (skipped_fields ''budget'' (PStr msg)) st1)
        | None \<Rightarrow>
       (case policy_validate lib schema_errors engine_available step (ctx_policy ctx)
               (ctx_user_roles ctx) (ctx_context ctx) of
          None \<Rightarrow> None
        | Some val \<Rightarrow>
            if \<not> ok val then
              run_steps lib schema_errors engine_available env brain ctx dry_run rest
                (record_step_act env rid step_name
                   (skipped_fields ''policy'' (PList (map PStr (reasons val)))) st1)
            else if (py_truthy (dict_get step ''requires_approval'')
                     \<or> map_of (ctx_needs_approval ctx) step_name \<noteq> None)
                    \<and> \<not> approval_granted env
                          (case map_of (ctx_needs_approval ctx) step_name of
                             None \<Rightarrow> None | Some aid \<Rightarrow> aid) then
              run_steps lib schema_errors engine_available env brain ctx dry_run rest
                (record_step_act env rid step_name
                   (skipped_fields ''approval'' (PStr ''timeout'')) st1)
            else
              let pl = plan_step lib brain rid step in
              if pl_block pl then
                run_steps lib schema_errors engine_available env brain ctx dry_run rest
                  (record_step_act env rid step_name
                     (skipped_fields ''brain'' (PList (map PStr (pl_reasons pl)))) st1)
              else
                (case execute_step env ctx dry_run step pl st1 of
                   (Some exc, st2) \<Rightarrow> Some (Failed exc, st2)
                 | (None, st2) \<Rightarrow>
                     run_steps lib schema_errors engine_available env brain ctx dry_run rest st2)))"

definition initial_state :: wf_state where
  "initial_state = \<lparr>wf_totals = zero_totals, wf_steps = [], wf_metrics = None, wf_calls = []\<rparr>"

text \<open>The row of a step in the table of a state.\<close>

definition step_row_of :: "wf_state \<Rightarrow> string \<Rightarrow> string \<Rightarrow> step_row option" where
  "step_row_of st rid step_name =
    find (\<lambda>s. s_run_id s = rid \<and> s_name s = step_name) (wf_steps st)"

text \<open>The state after the two \<open>record_step\<close> calls of a step that the budget gate skips:
  first the \<open>pending\<close> row, then \<open>skipped\<close> with the budget error.\<close>

definition budget_skipped ::
  "activities_env \<Rightarrow> run_ctx \<Rightarrow> (string \<times> pyval) list \<Rightarrow> string \<Rightarrow> wf_state \<Rightarrow> wf_state" where
  "budget_skipped env ctx step msg st =
    record_step_act env (ctx_run_id ctx) (dict_get_str step ''name'' '''')
      (skipped_fields ''budget'' (PStr msg))
      (record_step_act env (ctx_run_id ctx) (dict_get_str step ''name'' '''')
         (pending_fields step) st)"

text \<open>
  What the claim says of a skipped step: the engine goes on with the remaining steps
  from the state in which the step is recorded as skipped with the budget error
  \<open>msg\<close>, the totals being what they were.
\<close>

definition skips_and_continues ::
  "py_lib \<Rightarrow> (string \<Rightarrow> pyval \<Rightarrow> string list) \<Rightarrow> bool \<Rightarrow> activities_env \<Rightarrow> brain_result
   \<Rightarrow> run_ctx \<Rightarrow> bool \<Rightarrow> (string \<times> pyval) list \<Rightarrow> (string \<times> pyval) list list \<Rightarrow> wf_state
   \<Rightarrow> string \<Rightarrow> bool" where
  "skips_and_continues lib schema_errors engine_available env brain ctx dry_run step rest st msg =
    (run_steps lib schema_errors engine_available env brain ctx dry_run (step # rest) st
       = run_steps lib schema_errors engine_available env brain ctx dry_run rest
           (budget_skipped env ctx step msg st)
     \<and> wf_totals (budget_skipped env ctx step msg st) = wf_totals st
     \<and> wf_calls (budget_skipped env ctx step msg st) = wf_calls st
     \<and> map_option (\<lambda>r. (s_status r, s_error r))
          (step_row_of (budget_skipped env ctx step msg st) (ctx_run_id ctx)
             (dict_get_str step ''name'' ''''))
         = Some (SKIPPED, PDict [(''budget'', PStr msg)]))"

text \<open>The budget scenario: a token budget of 50, two steps, a brain that reports 60
  tokens of usage, adapters that succeed.\<close>

definition budget_policy :: policy where
  "budget_policy = \<lparr>tool_allowlist = [], preconditions = [],
                     max_tokens_per_run = Some 50, max_cost_per_run_usd = None\<rparr>"

definition step_ack :: "(string \<times> pyval) list" where
  "step_ack = [(''name'', PStr ''ack''), (''tool'', PStr ''pagerduty.ack''),
               (''input'', PDict [(''id'', PStr ''X'')])]"

definition budget_ctx :: run_ctx where
  "budget_ctx = \<lparr>ctx_run_id = ''run-1'', ctx_steps = [step_ack, drain_step],
                  ctx_policy = budget_policy, ctx_user_roles = [''Admin''],
                  ctx_needs_approval = [], ctx_context = []\<rparr>"

definition ok_env :: activities_env where
  "ok_env = \<lparr>adapter_result = (\<lambda>c. Inr []), approval_granted = (\<lambda>a. True), wf_now = 0\<rparr>"

definition brain60 :: brain_result where
  "brain60 = \<lparr>br_planned = [],
               br_usage = Some \<lparr>u_tokens_in = 40, u_tokens_out = 20, u_latency_ms = 5,
                                 u_cost_usd = 0\<rparr>\<rparr>"

text \<open>The state of the scenario after its first step.\<close>

definition after_first :: wf_state where
  "after_first =
    (case run_steps toy_lib no_schema True ok_env brain60 budget_ctx True [step_ack] initial_state of
       Some (outcome, st) \<Rightarrow> st
     | None \<Rightarrow> initial_state)"




text \<open>A cost budget of one cent, and a state in which two cents have been spent.\<close>

definition cost_ctx :: run_ctx where
  "cost_ctx = budget_ctx\<lparr>ctx_policy := budget_policy\<lparr>max_tokens_per_run := None,
                                                      max_cost_per_run_usd := Some (1 / 100)\<rparr>\<rparr>"

definition spent_state :: wf_state where
  "spent_state = initial_state\<lparr>wf_totals := zero_totals\<lparr>cost_usd := 2 / 100\<rparr>\<rparr>"


definition args_b :: pyval where
  "args_b = PDict [(''force'', PBool False), (''node'', PStr ''n1'')]"


text \<open>The key of the step \<open>drain\<close> of run \<open>run-1\<close> with the arguments above, when the
  digest returns its input: the JSON text has the key \<open>force\<close> before \<open>node\<close> and the
  default separators of \<open>json.dumps\<close>.\<close>

definition drain_key :: string where
  "drain_key = ''run-1:drain:{'' @ quoted ''force'' @ '': false, ''
                 @ quoted ''node'' @ '': '' @ quoted ''n1'' @ ''}''"

section \<open>The shadow evaluator (orchestrator/app/activities.py)\<close>


























section \<open>Canonical JSON does not depend on key order\<close>





section \<open>Authorization: the approve-approval rule\<close>

lemma check_permission_approve:
  "check_permission r ''approve'' ''approval'' \<longleftrightarrow> r = ''Admin'' \<or> r = ''OnCall''"
  by (simp add: check_permission_def PERMISSIONS_def)

lemma check_bindings_inv:
  assumes "check_bindings act res bs (a, rc) = (a', rc')"
    and "a \<longleftrightarrow> (\<exists>r\<in>rc. check_permission r act res)"
  shows "(a' \<longleftrightarrow> (\<exists>r\<in>rc'. check_permission r act res))
       \<and> rc \<subseteq> rc' \<and> rc' \<subseteq> rc \<union> rb_role ` set bs
       \<and> (\<not> a' \<longrightarrow> rb_role ` set bs \<subseteq> rc')"
  using assms
proof (induction bs arbitrary: a rc)
  case Nil
  then show ?case by auto
next
  case (Cons b bs)
  show ?case
  proof (cases "rb_role b \<in> rc")
    case True
    with Cons.prems have "check_bindings act res bs (a, rc) = (a', rc')" by simp
    from Cons.IH[OF this Cons.prems(2)] True show ?thesis by auto
  next
    case False
    show ?thesis
    proof (cases "check_permission (rb_role b) act res")
      case True
      with False Cons.prems show ?thesis by auto
    next
      case np: False
      with False Cons.prems
      have e: "check_bindings act res bs (a, insert (rb_role b) rc) = (a', rc')" by simp
      have "a \<longleftrightarrow> (\<exists>r\<in>insert (rb_role b) rc. check_permission r act res)"
        using Cons.prems(2) np by auto
      from Cons.IH[OF e this] show ?thesis by auto
    qed
  qed
qed

lemma check_subjects_inv:
  assumes "check_subjects db t p act res subs (a, rc) = (a', rc')"
    and "a \<longleftrightarrow> (\<exists>r\<in>rc. check_permission r act res)"
  shows "(a' \<longleftrightarrow> (\<exists>r\<in>rc'. check_permission r act res))
       \<and> rc \<subseteq> rc' \<and> rc' \<subseteq> rc \<union> subj_roles db t p subs
       \<and> (\<not> a' \<longrightarrow> subj_roles db t p subs \<subseteq> rc')"
  using assms
proof (induction subs arbitrary: a rc)
  case Nil
  then show ?case by (auto simp: subj_roles_def)
next
  case (Cons s subs)
  define st1 where "st1 = (case p of
                  Some q \<Rightarrow> (if q \<noteq> []
                             then check_bindings act res (project_bindings db t q s) (a, rc)
                             else (a, rc))
                | None \<Rightarrow> (a, rc))"
  define st2 where "st2 = (if \<not> fst st1
                then check_bindings act res (tenant_bindings db t s) st1
                else st1)"
  obtain a1 rc1 where st1: "st1 = (a1, rc1)" by (cases st1)
  obtain a2 rc2 where st2: "st2 = (a2, rc2)" by (cases st2)
  define P where "P = (if (\<exists>q. p = Some q \<and> q \<noteq> []) then rb_role ` set (project_bindings db t (the p) s) else {})"
  define T where "T = rb_role ` set (tenant_bindings db t s)"
  have i1: "(a1 \<longleftrightarrow> (\<exists>r\<in>rc1. check_permission r act res))
       \<and> rc \<subseteq> rc1 \<and> rc1 \<subseteq> rc \<union> P \<and> (\<not> a1 \<longrightarrow> P \<subseteq> rc1)"
  proof (cases "\<exists>q. p = Some q \<and> q \<noteq> []")
    case True
    then obtain q where q: "p = Some q" "q \<noteq> []" by auto
    then have "check_bindings act res (project_bindings db t q s) (a, rc) = (a1, rc1)"
      using st1 by (simp add: st1_def)
    from check_bindings_inv[OF this Cons.prems(2)] q show ?thesis by (simp add: P_def)
  next
    case False
    then have "st1 = (a, rc)" by (auto simp: st1_def split: option.splits)
    with st1 Cons.prems(2) False show ?thesis by (auto simp: P_def)
  qed
  have i2: "(a2 \<longleftrightarrow> (\<exists>r\<in>rc2. check_permission r act res))
       \<and> rc1 \<subseteq> rc2 \<and> rc2 \<subseteq> rc1 \<union> T \<and> (\<not> a2 \<longrightarrow> T \<subseteq> rc2)"
  proof (cases a1)
    case True
    then have "st2 = st1" by (simp add: st2_def st1)
    with st1 st2 i1 True show ?thesis by auto
  next
    case False
    then have "check_bindings act res (tenant_bindings db t s) (a1, rc1) = (a2, rc2)"
      using st2 by (simp add: st2_def st1)
    from check_bindings_inv[OF this] i1 show ?thesis by (simp add: T_def)
  qed
  have split: "subj_roles db t p (s # subs) = P \<union> T \<union> subj_roles db t p subs"
    by (auto simp: subj_roles_def P_def T_def project_bindings_def tenant_bindings_def
             split: option.splits)
  have a2a1: "\<not> a2 \<Longrightarrow> \<not> a1"
    using st1 st2 by (auto simp: st2_def)
  have unf: "check_subjects db t p act res (s # subs) (a, rc)
      = (if a2 then (a2, rc2) else check_subjects db t p act res subs (a2, rc2))"
  proof -
    have "check_subjects db t p act res (s # subs) (a, rc)
      = (if fst st2 then st2 else check_subjects db t p act res subs st2)"
      unfolding st2_def st1_def by (simp add: Let_def)
    then show ?thesis by (simp add: st2)
  qed
  show ?case
  proof (cases a2)
    case True
    with unf Cons.prems(1) have "a' = a2" "rc' = rc2" by auto
    with True i1 i2 split show ?thesis by auto
  next
    case False
    with unf Cons.prems(1) have e: "check_subjects db t p act res subs (a2, rc2) = (a', rc')" by simp
    from Cons.IH[OF e] i2 have
      "(a' \<longleftrightarrow> (\<exists>r\<in>rc'. check_permission r act res))
       \<and> rc2 \<subseteq> rc' \<and> rc' \<subseteq> rc2 \<union> subj_roles db t p subs
       \<and> (\<not> a' \<longrightarrow> subj_roles db t p subs \<subseteq> rc')" by simp
    with i1 i2 a2a1[OF False] False split show ?thesis by blast
  qed
qed

text \<open>
  Claim C3. For a subject and the roles bound to it, \<open>authorize("approve", "approval")\<close>
  returns normally if and only if the subject holds \<open>Admin\<close>, or \<open>OnCall\<close>, or both
  \<open>SRE\<close> and \<open>OnCall\<close>; a subject whose only role is \<open>SRE\<close> is refused with 403.
\<close>

theorem authorize_approve_approval:
  "(authorize ''approve'' ''approval'' db t p st = Inr ()
      \<longleftrightarrow> ''Admin'' \<in> bound_roles db t p st
          \<or> ''OnCall'' \<in> bound_roles db t p st
          \<or> (''SRE'' \<in> bound_roles db t p st \<and> ''OnCall'' \<in> bound_roles db t p st))
   \<and> (bound_roles db t p st = {''SRE''}
        \<longrightarrow> authorize ''approve'' ''approval'' db t p st = Inl Forbidden403)"
proof -
  define R where "R = bound_roles db t p st"
  define subs where "subs = get_subject_identifiers st"
  have R: "R = subj_roles db t p subs"
    by (simp add: R_def subs_def bound_roles_def)
  obtain a rc where fin:
    "check_subjects db t p ''approve'' ''approval'' subs (False, {}) = (a, rc)"
    by (cases "check_subjects db t p ''approve'' ''approval'' subs (False, {})")
  from check_subjects_inv[OF fin] have inv:
    "a \<longleftrightarrow> (\<exists>r\<in>rc. r = ''Admin'' \<or> r = ''OnCall'')" "rc \<subseteq> R" "\<not> a \<Longrightarrow> R \<subseteq> rc"
    by (auto simp: R check_permission_approve)
  have empty: "subs = [] \<Longrightarrow> R = {}"
    by (simp add: R subj_roles_def)
  have auth: "authorize ''approve'' ''approval'' db t p st =
      (if subs = [] then Inl Unauthorized401
       else if \<not> (if ''SRE'' \<in> rc \<and> ''OnCall'' \<in> rc then True else a)
            then Inl Forbidden403 else Inr ())"
    using fin by (simp add: authorize_def subs_def[symmetric] Let_def)
  have main: "authorize ''approve'' ''approval'' db t p st = Inr ()
      \<longleftrightarrow> ''Admin'' \<in> R \<or> ''OnCall'' \<in> R"
  proof (cases "subs = []")
    case True
    with auth empty show ?thesis by simp
  next
    case False
    show ?thesis
    proof (cases a)
      case True
      with auth False inv show ?thesis by auto
    next
      case na: False
      with inv have "R = rc" by auto
      with auth False inv na show ?thesis by auto
    qed
  qed
  have sre: "R = {''SRE''} \<Longrightarrow> authorize ''approve'' ''approval'' db t p st = Inl Forbidden403"
  proof -
    assume r: "R = {''SRE''}"
    then have ne: "subs \<noteq> []" using empty by auto
    from r inv have "\<not> a" by auto
    with inv r have "rc = {''SRE''}" by auto
    with auth ne \<open>\<not> a\<close> show ?thesis by simp
  qed
  from main sre show ?thesis unfolding R_def by blast
qed

text \<open>Claim C3 at a user bound to \<open>SRE\<close> only.\<close>

theorem authorize_approve_approval_witness:
  "bound_roles sre_only_db ''t1'' None sre_request = {''SRE''}
   \<and> authorize ''approve'' ''approval'' sre_only_db ''t1'' None sre_request = Inl Forbidden403"
proof -
  have r: "bound_roles sre_only_db ''t1'' None sre_request = {''SRE''}"
    by (simp add: bound_roles_def subj_roles_def sre_only_db_def sre_request_def
                  get_subject_identifiers_def)
  with authorize_approve_approval[of sre_only_db "''t1''" None sre_request]
  show ?thesis by simp
qed

section \<open>Step status updates\<close>


lemma key_apply_fields:
  "s_run_id (apply_fields now flds s) = s_run_id s"
  "s_name (apply_fields now flds s) = s_name s"
  by (simp_all add: apply_fields_def Let_def)

lemma update_first_None: "update_first P f xs = None \<Longrightarrow> find P xs = None"
  by (induction xs) (simp_all split: if_splits option.splits)

lemma update_first_Some:
  "update_first P f xs = Some ys \<Longrightarrow> (\<And>x. P (f x) = P x) \<Longrightarrow>
     \<exists>x. find P xs = Some x \<and> find P ys = Some (f x)"
proof (induction xs arbitrary: ys)
  case Nil
  then show ?case by simp
next
  case (Cons a xs)
  show ?case
  proof (cases "P a")
    case True
    with Cons.prems show ?thesis by auto
  next
    case False
    with Cons.prems(1) obtain zs where zs: "update_first P f xs = Some zs" "ys = a # zs"
      by (auto split: option.splits)
    from Cons.IH[OF zs(1) Cons.prems(2)] False zs(2) show ?thesis by simp
  qed
qed

lemma find_append_None: "find P xs = None \<Longrightarrow> find P (xs @ [x]) = (if P x then Some x else None)"
  by (induction xs) (simp_all split: if_splits)





section \<open>The audit chain and its verification\<close>

text \<open>The hash computed by \<open>hmac_hash\<close> on the record of a row is the chain hash of the
  specification: an empty previous hash and a missing one give the same text.\<close>

lemma hmac_hash_record:
  "hmac_hash lib prev (record_of l) = chain_hash lib prev l"
  by (cases prev)
     (simp_all add: hmac_hash_def chain_hash_def record_of_def audit_record_def
        record_without_hash_def opt_str_def truthy_str_def Let_def)

lemma verify_loop_None:
  "verify_loop lib k prev logs = None \<longleftrightarrow>
     (\<forall>j<length logs. a_hash (logs ! j) = rederived lib prev logs j)"
proof (induction logs arbitrary: k prev)
  case Nil
  then show ?case by simp
next
  case (Cons l ls)
  have shift: "rederived lib prev (l # ls) (Suc j) = rederived lib (Some (a_hash l)) ls j" for j
    by (cases j) (simp_all add: rederived_def)
  have zero: "rederived lib prev (l # ls) 0 = hmac_hash lib prev (record_of l)"
    by (simp add: rederived_def hmac_hash_record)
  show ?case
  proof (cases "a_hash l = hmac_hash lib prev (record_of l)")
    case True
    then have "verify_loop lib k prev (l # ls) = verify_loop lib (Suc k) (Some (a_hash l)) ls"
      by (simp add: Let_def)
    then show ?thesis
      using Cons.IH[of "Suc k" "Some (a_hash l)"] True
      by (simp add: All_less_Suc2 shift zero del: verify_loop.simps)
  next
    case False
    then have "verify_loop lib k prev (l # ls) \<noteq> None" by (simp add: Let_def)
    moreover have "\<not> (\<forall>j<length (l # ls). a_hash ((l # ls) ! j) = rederived lib prev (l # ls) j)"
      using False zero by (metis length_greater_0_conv list.discI nth_Cons_0)
    ultimately show ?thesis by blast
  qed
qed

lemma verify_loop_Some:
  "i < length logs \<Longrightarrow>
   (\<forall>j<i. a_hash (logs ! j) = rederived lib prev logs j) \<Longrightarrow>
   a_hash (logs ! i) \<noteq> rederived lib prev logs i \<Longrightarrow>
   verify_loop lib k prev logs =
     Some (VerifyBroken (k + i) (a_id (logs ! i)) (rederived lib prev logs i) (a_hash (logs ! i)))"
proof (induction logs arbitrary: k prev i)
  case Nil
  then show ?case by simp
next
  case (Cons l ls)
  have shift: "rederived lib prev (l # ls) (Suc j) = rederived lib (Some (a_hash l)) ls j" for j
    by (cases j) (simp_all add: rederived_def)
  have zero: "rederived lib prev (l # ls) 0 = hmac_hash lib prev (record_of l)"
    by (simp add: rederived_def hmac_hash_record)
  show ?case
  proof (cases i)
    case 0
    with Cons.prems(3) zero show ?thesis by (simp add: Let_def)
  next
    case (Suc i')
    from Cons.prems(2) Suc have h0: "a_hash l = hmac_hash lib prev (record_of l)"
      using zero by (metis nth_Cons_0 zero_less_Suc)
    have p1: "i' < length ls" using Cons.prems(1) Suc by simp
    have p2: "\<forall>j<i'. a_hash (ls ! j) = rederived lib (Some (a_hash l)) ls j"
    proof (intro allI impI)
      fix j assume "j < i'"
      then have "Suc j < i" using Suc by simp
      with Cons.prems(2) have "a_hash ((l # ls) ! Suc j) = rederived lib prev (l # ls) (Suc j)"
        by blast
      then show "a_hash (ls ! j) = rederived lib (Some (a_hash l)) ls j" by (simp add: shift)
    qed
    have p3: "a_hash (ls ! i') \<noteq> rederived lib (Some (a_hash l)) ls i'"
      using Cons.prems(3) Suc by (simp add: shift)
    from Cons.IH[OF p1 p2 p3, of "Suc k"] h0 Suc show ?thesis
      by (simp add: Let_def shift)
  qed
qed

lemma tenant_logs_write:
  "tenant_logs t (write_audit lib w db) =
     (if w_tenant_id w = Some t
      then tenant_logs t db @ [last (write_audit lib w db)]
      else tenant_logs t db)"
  by (simp add: tenant_logs_def write_audit_def Let_def)

lemma chain_ok_append:
  "chain_ok lib prev (ls @ [e]) \<longleftrightarrow>
     chain_ok lib prev ls
     \<and> a_prev_hash e = (if ls = [] then prev else Some (a_hash (last ls)))
     \<and> a_hash e = hmac_hash lib (a_prev_hash e) (record_of e)"
  by (induction ls arbitrary: prev) auto

lemma last_write_audit:
  assumes "t \<noteq> []" "w_tenant_id w = Some t"
  shows "a_prev_hash (last (write_audit lib w db)) =
           (if tenant_logs t db = [] then None else Some (a_hash (last (tenant_logs t db))))"
    and "a_hash (last (write_audit lib w db)) =
           hmac_hash lib (a_prev_hash (last (write_audit lib w db)))
             (record_of (last (write_audit lib w db)))"
  using assms
  by (simp_all add: write_audit_def Let_def truthy_str_def record_of_def split: list.splits)

lemma chain_ok_write:
  assumes "t \<noteq> []" "chain_ok lib None (tenant_logs t db)"
  shows "chain_ok lib None (tenant_logs t (write_audit lib w db))"
proof (cases "w_tenant_id w = Some t")
  case True
  with assms last_write_audit[OF assms(1) True, of lib db] show ?thesis
    by (simp add: tenant_logs_write chain_ok_append)
next
  case False
  with assms show ?thesis by (simp add: tenant_logs_write)
qed

lemma chain_ok_writes:
  "t \<noteq> [] \<Longrightarrow> chain_ok lib None (tenant_logs t (audit_writes lib ws))"
proof (induction ws rule: rev_induct)
  case Nil
  then show ?case by (simp add: audit_writes_def tenant_logs_def)
next
  case (snoc w ws)
  then show ?case
    using chain_ok_write[of t lib "audit_writes lib ws" w] by (simp add: audit_writes_def)
qed

lemma chain_ok_index:
  "chain_ok lib prev logs \<longleftrightarrow>
     (\<forall>i<length logs.
        a_prev_hash (logs ! i) = (if i = 0 then prev else Some (a_hash (logs ! (i - 1))))
        \<and> a_hash (logs ! i) = rederived lib prev logs i)"
proof (induction logs arbitrary: prev)
  case Nil
  then show ?case by simp
next
  case (Cons l ls)
  have shift: "rederived lib prev (l # ls) (Suc j) = rederived lib (Some (a_hash l)) ls j" for j
    by (cases j) (simp_all add: rederived_def)
  have zero: "rederived lib prev (l # ls) 0 = hmac_hash lib prev (record_of l)"
    by (simp add: rederived_def hmac_hash_record)
  have pshift: "(if Suc j = 0 then prev else Some (a_hash ((l # ls) ! (Suc j - 1))))
      = (if j = 0 then Some (a_hash l) else Some (a_hash (ls ! (j - 1))))" for j
    by (cases j) simp_all
  show ?case
    by (simp add: Cons.IH All_less_Suc2 shift zero pshift del: One_nat_def) (auto simp: nth_Cons')
qed

text \<open>
  Claim C1. For a tenant \<open>t\<close> (a non-empty tenant id) and any history of
  \<open>write_audit\<close> calls, every row of the tenant's chain stores as \<open>prev_hash\<close> the hash
  of the tenant's previous row (\<open>None\<close> for the first) and as \<open>hash\<close> the HMAC-SHA256,
  keyed with the audit secret, of that previous hash (nothing for the first row)
  followed by the canonical JSON of the row's seven hashed columns; and
  \<open>verify_audit_chain\<close> answers \<open>ok\<close> with the number of rows. On any table,
  \<open>verify_audit_chain\<close> re-derives each hash in order, by the same formula, from the
  stored hash of the row before: at the first row \<open>i\<close> whose stored hash differs from
  the re-derived one it returns \<open>ok: False\<close> with \<open>broken_at = i\<close>, the row's id, the
  expected and the stored hash; when no row differs it returns \<open>ok: True\<close>. A changed
  payload is therefore reported at its row as soon as the digest of the changed
  record differs from the stored one.
\<close>

theorem audit_chain_verify:
  "t \<noteq> [] \<longrightarrow>
    (let logs = filter (\<lambda>l. a_tenant_id l = Some t) (audit_writes lib ws) in
       (\<forall>i<length logs.
           a_prev_hash (logs ! i) = (if i = 0 then None else Some (a_hash (logs ! (i - 1))))
           \<and> a_hash (logs ! i) =
               hmac_sha256_hex lib (AUDIT_HMAC_SECRET lib)
                 ((if i = 0 then [] else a_hash (logs ! (i - 1)))
                  @ json_dumps lib '','' '':'' (record_without_hash (logs ! i))))
       \<and> verify_audit_chain lib (Some t) (audit_writes lib ws) = VerifyOk (length logs))
    \<and> (let logs = filter (\<lambda>l. a_tenant_id l = Some t) db;
            expected = (\<lambda>i. hmac_sha256_hex lib (AUDIT_HMAC_SECRET lib)
                          ((if i = 0 then [] else a_hash (logs ! (i - 1)))
                           @ json_dumps lib '','' '':'' (record_without_hash (logs ! i)))) in
         (\<forall>i. i < length logs
               \<and> (\<forall>j<i. a_hash (logs ! j) = expected j)
               \<and> a_hash (logs ! i) \<noteq> expected i
             \<longrightarrow> verify_audit_chain lib (Some t) db =
                   VerifyBroken i (a_id (logs ! i)) (expected i) (a_hash (logs ! i)))
         \<and> ((\<forall>j<length logs. a_hash (logs ! j) = expected j)
             \<longrightarrow> verify_audit_chain lib (Some t) db = VerifyOk (length logs)))"
proof (intro impI)
  assume t: "t \<noteq> []"
  have v: "verify_audit_chain lib (Some t) d =
             (case verify_loop lib 0 None (tenant_logs t d) of
                Some r \<Rightarrow> r | None \<Rightarrow> VerifyOk (length (tenant_logs t d)))" for d
    using t by (simp add: verify_audit_chain_def truthy_str_def Let_def)
  have explicit: "rederived lib None logs i =
      hmac_sha256_hex lib (AUDIT_HMAC_SECRET lib)
        ((if i = 0 then [] else a_hash (logs ! (i - 1)))
         @ json_dumps lib '','' '':'' (record_without_hash (logs ! i)))" for logs i
    by (simp add: rederived_def chain_hash_def)
  let ?W = "tenant_logs t (audit_writes lib ws)"
  from chain_ok_writes[OF t, of lib ws] have idx:
    "\<forall>i<length ?W.
        a_prev_hash (?W ! i) = (if i = 0 then None else Some (a_hash (?W ! (i - 1))))
        \<and> a_hash (?W ! i) = rederived lib None ?W i"
    by (simp only: chain_ok_index)
  from idx have "verify_loop lib 0 None ?W = None"
    by (simp add: verify_loop_None)
  then have part2: "verify_audit_chain lib (Some t) (audit_writes lib ws) = VerifyOk (length ?W)"
    by (simp add: v)
  let ?L = "tenant_logs t db"
  have part3: "verify_audit_chain lib (Some t) db =
        VerifyBroken i (a_id (?L ! i)) (rederived lib None ?L i) (a_hash (?L ! i))"
    if "i < length ?L \<and> (\<forall>j<i. a_hash (?L ! j) = rederived lib None ?L j)
        \<and> a_hash (?L ! i) \<noteq> rederived lib None ?L i" for i
    using that verify_loop_Some[of i ?L lib None 0] by (simp add: v)
  have part4: "verify_audit_chain lib (Some t) db = VerifyOk (length ?L)"
    if "\<forall>j<length ?L. a_hash (?L ! j) = rederived lib None ?L j"
  proof -
    from that have "verify_loop lib 0 None ?L = None" by (simp add: verify_loop_None)
    then show ?thesis by (simp add: v)
  qed
  show "(let logs = filter (\<lambda>l. a_tenant_id l = Some t) (audit_writes lib ws) in
       (\<forall>i<length logs.
           a_prev_hash (logs ! i) = (if i = 0 then None else Some (a_hash (logs ! (i - 1))))
           \<and> a_hash (logs ! i) =
               hmac_sha256_hex lib (AUDIT_HMAC_SECRET lib)
                 ((if i = 0 then [] else a_hash (logs ! (i - 1)))
                  @ json_dumps lib '','' '':'' (record_without_hash (logs ! i))))
       \<and> verify_audit_chain lib (Some t) (audit_writes lib ws) = VerifyOk (length logs))
    \<and> (let logs = filter (\<lambda>l. a_tenant_id l = Some t) db;
            expected = (\<lambda>i. hmac_sha256_hex lib (AUDIT_HMAC_SECRET lib)
                          ((if i = 0 then [] else a_hash (logs ! (i - 1)))
                           @ json_dumps lib '','' '':'' (record_without_hash (logs ! i)))) in
         (\<forall>i. i < length logs
               \<and> (\<forall>j<i. a_hash (logs ! j) = expected j)
               \<and> a_hash (logs ! i) \<noteq> expected i
             \<longrightarrow> verify_audit_chain lib (Some t) db =
                   VerifyBroken i (a_id (logs ! i)) (expected i) (a_hash (logs ! i)))
         \<and> ((\<forall>j<length logs. a_hash (logs ! j) = expected j)
             \<longrightarrow> verify_audit_chain lib (Some t) db = VerifyOk (length logs)))"
    unfolding Let_def explicit[symmetric] tenant_logs_def[symmetric]
    using idx part2 part3 part4 by blast
qed

lemma hashes_w:
  "map a_hash (audit_writes toy_lib [w1, w2]) =
     [''k'' @ w1_canonical, ''k'' @ (''k'' @ w1_canonical) @ w2_canonical]"
  by code_simp

lemma rows_t: "filter (\<lambda>l. a_tenant_id l = Some ''t'') tampered_db = tampered_db"
  by code_simp

lemma len_t: "length tampered_db = 2"
  by code_simp

lemma stored_t: "a_hash (tampered_db ! 0) = ''k'' @ w1_canonical"
  by code_simp

lemma expected_t:
  "hmac_sha256_hex toy_lib (AUDIT_HMAC_SECRET toy_lib)
     ([] @ json_dumps toy_lib '','' '':'' (record_without_hash (tampered_db ! 0)))
   = ''k'' @ w1_altered"
  by code_simp

lemma differ_t: "''k'' @ w1_canonical \<noteq> ''k'' @ w1_altered"
  by code_simp

lemma id_t: "a_id (tampered_db ! 0) = ''1''"
  by code_simp

text \<open>Claim C1 at two writes of one tenant, with the secret \<open>k\<close> and a keyed digest that
  writes the key in front of the text: the first hash is the key followed by the
  canonical JSON of the first record, the second is the key followed by the first hash
  and the canonical JSON of the second record. After the payload of the first row has
  been altered, verification breaks at row 0, expecting the digest of the altered
  record.\<close>

theorem audit_chain_verify_witness:
  "''t'' \<noteq> []
   \<and> map a_hash (audit_writes toy_lib [w1, w2]) =
       [''k'' @ w1_canonical, ''k'' @ (''k'' @ w1_canonical) @ w2_canonical]
   \<and> verify_audit_chain toy_lib (Some ''t'') (audit_writes toy_lib [w1, w2]) = VerifyOk 2
   \<and> 0 < length tampered_db
   \<and> a_hash (tampered_db ! 0) = ''k'' @ w1_canonical
   \<and> ''k'' @ w1_canonical \<noteq> ''k'' @ w1_altered
   \<and> verify_audit_chain toy_lib (Some ''t'') tampered_db =
         VerifyBroken 0 ''1'' (''k'' @ w1_altered) (''k'' @ w1_canonical)"
proof -
  have t: "''t'' \<noteq> []" by simp
  note inst = audit_chain_verify[of "''t''" toy_lib "[w1, w2]" tampered_db,
                unfolded Let_def rows_t]
  from inst t have "verify_audit_chain toy_lib (Some ''t'') (audit_writes toy_lib [w1, w2])
      = VerifyOk (length (filter (\<lambda>l. a_tenant_id l = Some ''t'')
                            (audit_writes toy_lib [w1, w2])))" by blast
  moreover have "length (filter (\<lambda>l. a_tenant_id l = Some ''t'')
                            (audit_writes toy_lib [w1, w2])) = 2" by code_simp
  ultimately have ok:
    "verify_audit_chain toy_lib (Some ''t'') (audit_writes toy_lib [w1, w2]) = VerifyOk 2"
    by simp
  let ?e = "\<lambda>i. hmac_sha256_hex toy_lib (AUDIT_HMAC_SECRET toy_lib)
              ((if i = 0 then [] else a_hash (tampered_db ! (i - 1)))
               @ json_dumps toy_lib '','' '':'' (record_without_hash (tampered_db ! i)))"
  have e0: "?e 0 = ''k'' @ w1_altered" using expected_t by simp
  have pre: "0 < length tampered_db
      \<and> (\<forall>j<0. a_hash (tampered_db ! j) = ?e j)
      \<and> a_hash (tampered_db ! 0) \<noteq> ?e 0"
    unfolding e0 using len_t stored_t differ_t by simp
  from inst t pre have "verify_audit_chain toy_lib (Some ''t'') tampered_db =
         VerifyBroken 0 (a_id (tampered_db ! 0)) (?e 0) (a_hash (tampered_db ! 0))" by blast
  then have broken: "verify_audit_chain toy_lib (Some ''t'') tampered_db =
         VerifyBroken 0 ''1'' (''k'' @ w1_altered) (''k'' @ w1_canonical)"
    unfolding e0 by (simp add: id_t stored_t)
  from t hashes_w ok len_t stored_t differ_t broken show ?thesis by simp
qed
section \<open>Approving an approval\<close>

text \<open>The two checks of the claim that the code does make: an approval that is already
  approved is left as it is, and an expired signature is refused with 403.\<close>

lemma approve_already_approved:
  "find (approval_matches aid t p) (approvals db) = Some a \<Longrightarrow> ap_approved a \<Longrightarrow>
   approve_approval lib now audit_id actor db t p aid token = Inr (AlreadyApproved, db)"
  by (simp add: approve_approval_def)

lemma approve_expired:
  "find (approval_matches aid t p) (approvals db) = Some a \<Longrightarrow> \<not> ap_approved a \<Longrightarrow>
   truthy_str (ap_sig a) \<Longrightarrow> ap_sig_expires_at a = Some e \<Longrightarrow> e < now \<Longrightarrow>
   truthy_str token \<Longrightarrow>
   approve_approval lib now audit_id actor db t p aid token = Inl Forbidden403"
  by (simp add: approve_approval_def verify_approval_def Let_def)

text \<open>
  Claim C2 fails on the code. The claim: for an approval with a stored signature,
  \<open>approve_approval\<close> rejects a token that does not match the stored signature and
  leaves \<open>approved\<close> unchanged. The code: for a pending approval that has not expired,
  the token \<open>x.y\<close>, which is neither the stored signature nor built from its first
  digits, is accepted and \<open>approved\<close> becomes true; \<open>verify_approval\<close> only counts the
  dots of the token.
\<close>

theorem approve_ignores_token:
  "''x.y'' \<noteq> ''9f86d081884c7d659a2feaa0c55ad015a3bf4f1b2b0b822cd15d6c15b0f00a08''
   \<and> \<not> is_prefix ''y'' ''9f86d081884c7d659a2feaa0c55ad015a3bf4f1b2b0b822cd15d6c15b0f00a08''
   \<and> \<not> is_approved approvals_db ''ap-1''
   \<and> (case approve_approval toy_lib 0 ''a-1'' ''oncall@example.com'' approvals_db ''t'' None
              ''ap-1'' (Some ''x.y'') of
         Inl e \<Rightarrow> False
       | Inr (r, db') \<Rightarrow> r = ApprovedNow ''ap-1'' \<and> is_approved db' ''ap-1'')"
  by (simp add: approve_approval_def approvals_db_def pending_approval_def approval_matches_def
        truthy_str_def verify_approval_def is_approved_def Let_def)

section \<open>Preconditions and policy validation\<close>

lemma scan_ident_stuck: "stuck rest \<Longrightarrow> scan_ident rest = ([], rest)"
  by (cases rest) (simp_all add: stuck_def)

lemma tokenize_loop_stuck_step:
  "stuck rest \<Longrightarrow> tokenize_loop rest tokens = tokenize_loop rest (tokens @ [[]])"
  by (subst tokenize_loop.simps) (simp add: scan_ident_stuck, simp add: stuck_def)

lemma tokenize_loop_not_stuck:
  assumes "tokenize_loop rest tokens = Some y"
  shows "\<not> stuck rest"
proof (rule tokenize_loop.raw_induct[where P = "\<lambda>rest tokens y. \<not> stuck rest", OF _ assms])
  fix f :: "string \<Rightarrow> string list \<Rightarrow> string list option"
  fix rest tokens y
  assume IH: "\<And>r t z. f r t = Some z \<Longrightarrow> \<not> stuck r"
  assume eq: "(if rest = [] then Some tokens
      else if isspace (hd rest) then f (tl rest) tokens
           else if take 2 rest \<in> {''=='', ''!='', ''<='', ''>='', ''in'', ''not''}
                then if take 5 rest = ''not in''
                     then f (drop 5 rest) (tokens @ [''not in''])
                     else if take 2 rest \<in> {''=='', ''!='', ''<='', ''>=''}
                          then f (drop 2 rest) (tokens @ [take 2 rest])
                          else f (tl rest) (tokens @ [[hd rest]])
                else if hd rest \<in> {CHR ''='', CHR ''<'', CHR ''>'', CHR ''('',
                           CHR '')'', CHR ''&'', CHR ''|''}
                     then f (tl rest) (tokens @ [[hd rest]])
                     else if hd rest \<in> {CHR 0x27, CHR 0x22}
                          then let (body, rest') = scan_string (hd rest) (tl rest)
                               in f (drop 1 rest') (tokens @ [hd rest # body @ take 1 rest'])
                          else let (tok, rest') = scan_ident rest
                               in f rest' (tokens @ [tok])) = Some y"
  show "\<not> stuck rest"
  proof
    assume s: "stuck rest"
    then have "f rest (tokens @ [[]]) = Some y"
      using eq scan_ident_stuck[OF s] by (simp add: stuck_def)
    from IH[OF this] s show False by simp
  qed
qed

lemma tokenize_loop_stuck: "stuck rest \<Longrightarrow> tokenize_loop rest tokens = None"
  using tokenize_loop_not_stuck by (cases "tokenize_loop rest tokens") auto

lemma stuck_minus: "stuck (CHR ''-'' # cs)"
  by (simp add: stuck_def isspace_def ident_char_def isalnum_def)

lemma tokenize_negative: "tokenize ''context.count == -1'' = None"
proof -
  have a: "tokenize_loop ''context.count == -1'' [] = tokenize_loop '' == -1'' [''context.count'']"
    by (subst tokenize_loop.simps) (simp add: isspace_def ident_char_def isalnum_def)
  have b: "tokenize_loop '' == -1'' [''context.count''] = tokenize_loop ''== -1'' [''context.count'']"
    by (subst tokenize_loop.simps) (simp add: isspace_def)
  have c: "tokenize_loop ''== -1'' [''context.count''] = tokenize_loop '' -1'' [''context.count'', ''=='']"
    by (subst tokenize_loop.simps) (simp add: isspace_def)
  have d: "tokenize_loop '' -1'' [''context.count'', ''==''] = tokenize_loop ''-1'' [''context.count'', ''=='']"
    by (subst tokenize_loop.simps) (simp add: isspace_def)
  show ?thesis
    unfolding tokenize_def a b c d by (rule tokenize_loop_stuck) (rule stuck_minus)
qed

text \<open>
  Claim C8 fails on the code. The claim: \<open>decide\<close> is total and never throws; a rule
  whose \<open>when\<close> cannot be parsed is skipped and, when no rule matches, the result is no
  decision. The code: for the single rule with \<open>when\<close> equal to
  \<open>context.count == -1\<close>, whatever the step and the context, \<open>decide\<close> does not
  return: at the minus sign the tokenizer appends the empty token for ever. (The value
  parser accepts minus signs in numbers, which the tokenizer can never deliver.)
\<close>

theorem decide_does_not_return:
  "decide lib [rule_negative] step context = None"
  by (simp add: rule_negative_def truthy_str_def tokenize_negative)

text \<open>What does hold of \<open>decide\<close>: as long as the rules it reaches are tokenized, the
  first rule that applies to the step and evaluates to true decides, rules that raise
  are passed over, and the result is \<open>None\<close> when no rule decides.\<close>

lemma decide_Cons_outcome:
  "decide lib (prec # rest) step context =
     (case rule_outcome lib step context prec of
        None \<Rightarrow> None
      | Some True \<Rightarrow> Some (Some (p_then prec))
      | Some False \<Rightarrow> decide lib rest step context)"
  by (auto simp: rule_outcome_def split: option.splits sum.splits bool.splits)

lemma decide_first_match:
  "\<forall>q\<in>set pre. rule_outcome lib step context q = Some False \<Longrightarrow>
   rule_outcome lib step context r = Some True \<Longrightarrow>
   decide lib (pre @ r # post) step context = Some (Some (p_then r))"
proof (induction pre)
  case Nil
  then show ?case by (simp add: decide_Cons_outcome del: decide.simps(2))
next
  case (Cons q pre)
  then show ?case by (simp add: decide_Cons_outcome del: decide.simps(2))
qed

lemma decide_no_match:
  "\<forall>q\<in>set pre. rule_outcome lib step context q = Some False \<Longrightarrow>
   decide lib pre step context = Some None"
  by (induction pre) (simp_all add: decide_Cons_outcome del: decide.simps(2))



text \<open>
  Claim C10, as amended. For every step, policy, roles and non-empty context, when the
  policy engine can be imported: if the first precondition rule that applies to the
  step and whose \<open>when\<close> evaluates to true has \<open>then = require_approval\<close> (every rule
  before it being passed over), \<open>policy_validate\<close> returns
  \<open>{ok: True, reasons: [], require_approval: True}\<close>, whatever reasons the allowlist
  check and the schema validation had collected.
\<close>

theorem require_approval_overrides:
  "engine_available \<and> context \<noteq> [] \<and> preconditions pol = pre @ r # post
   \<and> (\<forall>q\<in>set pre. rule_outcome lib step context q = Some False)
   \<and> rule_outcome lib step context r = Some True
   \<and> p_then r = ''require_approval''
   \<longrightarrow> policy_validate lib schema_errors engine_available step pol user_roles context
         = Some \<lparr>ok = True, reasons = [], require_approval = True\<rparr>"
proof (intro impI, elim conjE)
  assume a: engine_available "context \<noteq> []" "preconditions pol = pre @ r # post"
    "\<forall>q\<in>set pre. rule_outcome lib step context q = Some False"
    "rule_outcome lib step context r = Some True" "p_then r = ''require_approval''"
  from decide_first_match[OF a(4,5), of post] a(3,6)
  have "decide lib (preconditions pol) step context = Some (Some ''require_approval'')" by simp
  with a(1,2,3) show "policy_validate lib schema_errors engine_available step pol user_roles context
         = Some \<lparr>ok = True, reasons = [], require_approval = True\<rparr>"
    by (simp add: policy_validate_def Let_def)
qed

lemma tokenize_true: "tokenize ''true'' = Some [''true'']"
proof -
  have a: "tokenize_loop ''true'' [] = tokenize_loop [] [''true'']"
    by (subst tokenize_loop.simps) (simp add: isspace_def ident_char_def isalnum_def)
  show ?thesis unfolding tokenize_def a by (subst tokenize_loop.simps) simp
qed

lemma parse_true: "parse_value lib ''true'' context step = Inr (PBool True)"
  by (simp add: parse_value_def isdigit_def isdigit_char_def lower_def lower_char_def)

lemma reduce_cmp_true: "reduce_cmp lib context step [''true''] 0 = Reduced [''true'']"
proof -
  have "reduce_cmp lib context step [''true''] 0 = reduce_cmp lib context step [''true''] (Suc 0)"
    by (subst reduce_cmp.simps) simp
  also have "\<dots> = Reduced [''true'']"
    by (subst reduce_cmp.simps) simp
  finally show ?thesis .
qed

lemma eval_flat_true: "eval_flat lib [''true''] context step = Inr True"
  by (simp add: eval_flat_def reduce_cmp_true parse_true)

lemma eval_true: "eval_expr lib [''true''] context step = Inr True"
proof -
  have "eval_expr lib [''true''] context step = eval_flat lib [''true''] context step"
    by (subst eval_expr.simps) simp
  then show ?thesis by (simp only: eval_flat_true)
qed

lemma rule_outcome_true:
  "rule_outcome lib step context \<lparr>p_when = ''true'', p_then = t, p_step = None\<rparr> = Some True"
  by (simp add: rule_outcome_def truthy_str_def tokenize_true eval_true)

lemma sre_policy_pre: "preconditions (sre_policy p) = p"
  by (simp add: sre_policy_def)

lemma allowlist_reasons_viewer:
  "allowlist_reasons (tool_allowlist (sre_policy pre)) [''Viewer''] ''k8s.drain_node''
     = [''tool not allowed for roles'']"
  by (simp add: allowlist_reasons_def sre_policy_def allowlist_get_def)


text \<open>The amended claim at a \<open>Viewer\<close> whom the allowlist refuses the tool: the rule
  admits the step.\<close>

theorem require_approval_overrides_witness:
  "prod_context \<noteq> [] \<and> preconditions (sre_policy [rule_approval]) = [] @ rule_approval # []
   \<and> rule_outcome toy_lib drain_step prod_context rule_approval = Some True
   \<and> p_then rule_approval = ''require_approval''
   \<and> allowlist_reasons (tool_allowlist (sre_policy [rule_approval])) [''Viewer'']
         ''k8s.drain_node'' = [''tool not allowed for roles'']
   \<and> policy_validate toy_lib no_schema True drain_step (sre_policy [rule_approval]) [''Viewer'']
         prod_context = Some \<lparr>ok = True, reasons = [], require_approval = True\<rparr>"
proof -
  have c: "prod_context \<noteq> []" by (simp add: prod_context_def)
  have p: "preconditions (sre_policy [rule_approval]) = [] @ rule_approval # []"
    by (simp add: sre_policy_pre)
  have o: "rule_outcome toy_lib drain_step prod_context rule_approval = Some True"
    by (simp add: rule_approval_def rule_outcome_true)
  have t: "p_then rule_approval = ''require_approval''" by (simp add: rule_approval_def)
  have e: "\<forall>q\<in>set []. rule_outcome toy_lib drain_step prod_context q = Some False" by simp
  from require_approval_overrides[of True prod_context "sre_policy [rule_approval]" "[]"
      rule_approval "[]" toy_lib drain_step no_schema "[''Viewer'']"] c p o t e
  have "policy_validate toy_lib no_schema True drain_step (sre_policy [rule_approval]) [''Viewer'']
         prod_context = Some \<lparr>ok = True, reasons = [], require_approval = True\<rparr>"
    by blast
  with c p o t show ?thesis by (simp add: allowlist_reasons_viewer)
qed

text \<open>
  Claim C10 as stated fails: a rule with \<open>then = require_approval\<close> applies to the step
  and matches, yet an earlier matching rule with \<open>then = block\<close> decides and the step
  is rejected.
\<close>

theorem require_approval_any_counterexample:
  "rule_outcome toy_lib drain_step prod_context rule_approval = Some True
   \<and> p_then rule_approval = ''require_approval''
   \<and> rule_approval \<in> set (preconditions (sre_policy [rule_block, rule_approval]))
   \<and> prod_context \<noteq> []
   \<and> policy_validate toy_lib no_schema True drain_step (sre_policy [rule_block, rule_approval])
         [''SRE''] prod_context
       = Some \<lparr>ok = False, reasons = [''precondition blocked''], require_approval = False\<rparr>"
proof -
  have "rule_outcome toy_lib drain_step prod_context rule_block = Some True"
    by (simp add: rule_block_def rule_outcome_true)
  from decide_first_match[of "[]" toy_lib drain_step prod_context rule_block "[rule_approval]", OF _ this]
  have d: "decide toy_lib [rule_block, rule_approval] drain_step prod_context = Some (Some ''block'')"
    by (simp add: rule_block_def del: decide.simps)
  have t: "dict_get_str drain_step ''tool'' [] = ''k8s.drain_node''"
    by (simp add: dict_get_str_def drain_step_def)
  have pre: "preconditions (sre_policy p) = p" for p by (simp add: sre_policy_def)
  have c: "prod_context \<noteq> []" by (simp add: prod_context_def)
  have al: "allowlist_reasons (tool_allowlist (sre_policy pre)) [''SRE''] ''k8s.drain_node'' = []" for pre
    by (simp add: allowlist_reasons_def sre_policy_def allowlist_get_def)
  have pv: "policy_validate toy_lib no_schema True drain_step (sre_policy [rule_block, rule_approval])
         [''SRE''] prod_context
       = Some \<lparr>ok = False, reasons = [''precondition blocked''], require_approval = False\<rparr>"
    by (simp add: policy_validate_def Let_def t al no_schema_def pre d c del: decide.simps)
  show ?thesis
    using pv c by (simp add: rule_approval_def rule_outcome_true pre)
qed

section \<open>The budget gate of the engine\<close>

lemma find_record_step:
  "\<exists>x. find (\<lambda>s. s_run_id s = rid \<and> s_name s = nm) (record_step now db rid nm flds)
        = Some (apply_fields now flds x)"
proof -
  let ?P = "\<lambda>s. s_run_id s = rid \<and> s_name s = nm"
  let ?f = "apply_fields now flds"
  have keep: "?P (?f s) = ?P s" for s
    by (simp only: key_apply_fields)
  show ?thesis
  proof (cases "update_first ?P ?f db")
    case None
    define x where "x = new_step rid nm (case f_tool flds of None \<Rightarrow> [] | Some t \<Rightarrow> t)"
    have px: "?P (?f x)" by (simp add: x_def key_apply_fields new_step_def)
    from update_first_None[OF None] have f: "find ?P db = None" .
    have r: "record_step now db rid nm flds = db @ [?f x]"
      using None by (simp add: record_step_def x_def)
    have "find ?P (db @ [?f x]) = Some (?f x)"
      using find_append_None[OF f, of "?f x"] px by simp
    then show ?thesis unfolding r by blast
  next
    case (Some db')
    from update_first_Some[OF Some keep] obtain x where
      x: "find ?P db = Some x" "find ?P db' = Some (?f x)" by blast
    have r: "record_step now db rid nm flds = db'"
      using Some by (simp add: record_step_def)
    from x(2) show ?thesis unfolding r by blast
  qed
qed

lemma skipped_row:
  "s_status (apply_fields now (skipped_fields k v) x) = SKIPPED"
  "s_error (apply_fields now (skipped_fields k v) x) = PDict [(k, v)]"
  by (simp_all add: apply_fields_def skipped_fields_def no_fields_def Let_def status_of_arg_def
        StepStatus_of_def)

lemma budget_skipped_props:
  "wf_totals (budget_skipped env ctx step msg st) = wf_totals st"
  "wf_calls (budget_skipped env ctx step msg st) = wf_calls st"
  "map_option (\<lambda>r. (s_status r, s_error r))
          (step_row_of (budget_skipped env ctx step msg st) (ctx_run_id ctx)
             (dict_get_str step ''name'' []))
         = Some (SKIPPED, PDict [(''budget'', PStr msg)])"
proof -
  show "wf_totals (budget_skipped env ctx step msg st) = wf_totals st"
    by (simp add: budget_skipped_def record_step_act_def)
  show "wf_calls (budget_skipped env ctx step msg st) = wf_calls st"
    by (simp add: budget_skipped_def record_step_act_def)
  have "\<exists>x. step_row_of (budget_skipped env ctx step msg st) (ctx_run_id ctx)
             (dict_get_str step ''name'' [])
      = Some (apply_fields (wf_now env) (skipped_fields ''budget'' (PStr msg)) x)"
    unfolding step_row_of_def budget_skipped_def record_step_act_def
    by (simp add: find_record_step)
  then obtain x where "step_row_of (budget_skipped env ctx step msg st) (ctx_run_id ctx)
             (dict_get_str step ''name'' [])
      = Some (apply_fields (wf_now env) (skipped_fields ''budget'' (PStr msg)) x)" ..
  then show "map_option (\<lambda>r. (s_status r, s_error r))
          (step_row_of (budget_skipped env ctx step msg st) (ctx_run_id ctx)
             (dict_get_str step ''name'' []))
         = Some (SKIPPED, PDict [(''budget'', PStr msg)])"
    by (simp add: skipped_row)
qed

lemma gate_continues:
  assumes "budget_gate (ctx_policy ctx) (wf_totals st) = Some msg"
  shows "skips_and_continues lib schema_errors engine_available env brain ctx dry_run step rest st msg"
proof -
  have "wf_totals (record_step_act env (ctx_run_id ctx) (dict_get_str step ''name'' [])
            (pending_fields step) st) = wf_totals st"
    by (simp add: record_step_act_def)
  with assms have "run_steps lib schema_errors engine_available env brain ctx dry_run (step # rest) st
       = run_steps lib schema_errors engine_available env brain ctx dry_run rest
           (budget_skipped env ctx step msg st)"
    by (simp add: Let_def budget_skipped_def)
  then show ?thesis
    by (simp add: skips_and_continues_def budget_skipped_props)
qed

text \<open>
  Claim C4. For every step the loop reaches: when the policy sets
  \<open>max_tokens_per_run\<close> and the accumulated \<open>tokens_in + tokens_out\<close> is at least that
  limit, the step is recorded as \<open>skipped\<close> with the error
  \<open>{budget: "max_tokens_per_run exceeded"}\<close>, nothing else changes, and the engine goes on
  with the next declared step. The same holds for \<open>max_cost_per_run_usd\<close> and the
  accumulated cost, with the error \<open>{budget: "max_cost_per_run_usd exceeded"}\<close>; the
  token budget is tested first, so when both limits are reached the error recorded is
  the one of the token budget.
\<close>

theorem budget_gate_skips_step:
  "(max_tokens_per_run (ctx_policy ctx) = Some m
      \<and> tokens_in (wf_totals st) + tokens_out (wf_totals st) \<ge> m
    \<longrightarrow> skips_and_continues lib schema_errors engine_available env brain ctx dry_run step rest st
          ''max_tokens_per_run exceeded'')
   \<and> (max_cost_per_run_usd (ctx_policy ctx) = Some c \<and> cost_usd (wf_totals st) \<ge> c
    \<longrightarrow> (if max_tokens_per_run (ctx_policy ctx) \<noteq> None
            \<and> tokens_in (wf_totals st) + tokens_out (wf_totals st)
                \<ge> the (max_tokens_per_run (ctx_policy ctx))
         then skips_and_continues lib schema_errors engine_available env brain ctx dry_run step
                rest st ''max_tokens_per_run exceeded''
         else skips_and_continues lib schema_errors engine_available env brain ctx dry_run step
                rest st ''max_cost_per_run_usd exceeded''))"
proof -
  have a: "skips_and_continues lib schema_errors engine_available env brain ctx dry_run step rest st
          ''max_tokens_per_run exceeded''"
    if "max_tokens_per_run (ctx_policy ctx) \<noteq> None"
       "tokens_in (wf_totals st) + tokens_out (wf_totals st) \<ge> the (max_tokens_per_run (ctx_policy ctx))"
    by (rule gate_continues) (use that in \<open>simp add: budget_gate_def\<close>)
  have b: "skips_and_continues lib schema_errors engine_available env brain ctx dry_run step rest st
          ''max_cost_per_run_usd exceeded''"
    if "max_cost_per_run_usd (ctx_policy ctx) = Some c" "cost_usd (wf_totals st) \<ge> c"
       "\<not> (max_tokens_per_run (ctx_policy ctx) \<noteq> None
          \<and> tokens_in (wf_totals st) + tokens_out (wf_totals st)
                \<ge> the (max_tokens_per_run (ctx_policy ctx)))"
    by (rule gate_continues) (use that in \<open>auto simp add: budget_gate_def\<close>)
  from a b show ?thesis by auto
qed

lemma after_first_totals:
  "wf_totals after_first = \<lparr>tokens_in = 40, tokens_out = 20, latency_ms = 5, cost_usd = 0\<rparr>"
  by (simp add: after_first_def Let_def budget_ctx_def budget_policy_def budget_gate_def
        record_step_act_def initial_state_def zero_totals_def policy_validate_def
        allowlist_reasons_def no_schema_def step_ack_def dict_get_str_def dict_get_def
        plan_step_def brain60_def execute_step_def invoke_adapter_def ok_env_def add_usage_def)

text \<open>Claim C4 in the budget scenario (a budget of 50 tokens, a first step that uses
  60: the second step is skipped), and at a cost budget that is used up.\<close>

theorem budget_gate_skips_step_witness:
  "max_tokens_per_run (ctx_policy budget_ctx) = Some 50
   \<and> tokens_in (wf_totals after_first) + tokens_out (wf_totals after_first) \<ge> 50
   \<and> skips_and_continues toy_lib no_schema True ok_env brain60 budget_ctx True drain_step []
        after_first ''max_tokens_per_run exceeded''
   \<and> max_cost_per_run_usd (ctx_policy cost_ctx) = Some (1 / 100)
   \<and> cost_usd (wf_totals spent_state) \<ge> 1 / 100
   \<and> skips_and_continues toy_lib no_schema True ok_env brain60 cost_ctx True step_ack [drain_step]
        spent_state ''max_cost_per_run_usd exceeded''"
proof -
  have m: "max_tokens_per_run (ctx_policy budget_ctx) = Some 50"
    by (simp add: budget_ctx_def budget_policy_def)
  have t: "tokens_in (wf_totals after_first) + tokens_out (wf_totals after_first) \<ge> 50"
    by (simp add: after_first_totals)
  have c: "max_cost_per_run_usd (ctx_policy cost_ctx) = Some (1 / 100)"
    by (simp add: cost_ctx_def)
  have n: "max_tokens_per_run (ctx_policy cost_ctx) = None"
    by (simp add: cost_ctx_def)
  have s: "cost_usd (wf_totals spent_state) \<ge> 1 / 100"
    by (simp add: spent_state_def)
  from budget_gate_skips_step[of budget_ctx 50 after_first toy_lib no_schema True ok_env brain60
      True drain_step "[]" 0] m t
  have a: "skips_and_continues toy_lib no_schema True ok_env brain60 budget_ctx True drain_step []
        after_first ''max_tokens_per_run exceeded''" by blast
  from budget_gate_skips_step[of cost_ctx 0 spent_state toy_lib no_schema True ok_env brain60
      True step_ack "[drain_step]" "1 / 100"] c s n
  have b: "skips_and_continues toy_lib no_schema True ok_env brain60 cost_ctx True step_ack [drain_step]
        spent_state ''max_cost_per_run_usd exceeded''" by simp
  from m t a c s b show ?thesis by blast
qed

section \<open>Idempotency keys\<close>






lemma key_b: "make_idempotency_key toy_lib ''run-1'' ''drain'' args_b = drain_key"
  by code_simp


section \<open>The shadow score\<close>









end
